theory Spec2Isabelle
  imports Main "HOL-Library.Sublist" "HOL-Library.Word"
begin

section \<open>Strings and paths\<close>

text \<open>
  The upload handler of \<^verbatim>\<open>api/handlers/gameUpload.go\<close> runs on a Unix host: the path
  separator is \<^verbatim>\<open>/\<close> and there is no volume name. A Go string is a byte sequence; it is
  modelled as a \<^typ>\<open>string\<close>. The helpers of Go's \<^verbatim>\<open>strings\<close> package that the handler calls:
\<close>

definition PathSeparator :: string where
  "PathSeparator = ''/''"

definition HasPrefix :: "'a list \<Rightarrow> 'a list \<Rightarrow> bool" where
  "HasPrefix s pre = prefix pre s"

definition HasSuffix :: "'a list \<Rightarrow> 'a list \<Rightarrow> bool" where
  "HasSuffix s suf = suffix suf s"

definition TrimPrefix :: "'a list \<Rightarrow> 'a list \<Rightarrow> 'a list" where
  "TrimPrefix s pre = (if HasPrefix s pre then drop (length pre) s else s)"

text \<open>
  \<^verbatim>\<open>strings.Split(path, "/")\<close> and \<^verbatim>\<open>strings.Join(elems, "/")\<close>.
\<close>

fun split_sep :: "string \<Rightarrow> string list" where
  "split_sep [] = [[]]"
| "split_sep (c # cs) =
     (if c = CHR ''/'' then [] # split_sep cs
      else (case split_sep cs of [] \<Rightarrow> [[c]] | e # es \<Rightarrow> (c # e) # es))"

fun join_sep :: "string list \<Rightarrow> string" where
  "join_sep [] = []"
| "join_sep [e] = e"
| "join_sep (e # e' # es) = e @ CHR ''/'' # join_sep (e' # es)"

text \<open>
  \<^verbatim>\<open>filepath.Clean\<close> (Go standard library, Unix): the lexical normal form of a path.
  Empty elements and \<^verbatim>\<open>.\<close> elements are dropped; a \<^verbatim>\<open>..\<close> element removes the element
  before it unless that is itself \<^verbatim>\<open>..\<close> or there is none; at the start of a rooted path
  \<^verbatim>\<open>..\<close> is dropped, at the start of a relative path it is kept. The empty result is
  \<^verbatim>\<open>.\<close>. \<open>out\<close> is the output written so far, last element first.
\<close>

fun clean_elems :: "bool \<Rightarrow> string list \<Rightarrow> string list \<Rightarrow> string list" where
  "clean_elems rooted out [] = rev out"
| "clean_elems rooted out (e # es) =
     (if e = [] \<or> e = ''.'' then clean_elems rooted out es
      else if e = ''..'' then
        (case out of
           [] \<Rightarrow> if rooted then clean_elems rooted [] es
                 else clean_elems rooted [''..''] es
         | t # ts \<Rightarrow> if t = ''..'' then clean_elems rooted (''..'' # out) es
                     else clean_elems rooted ts es)
      else clean_elems rooted (e # out) es)"

definition Clean :: "string \<Rightarrow> string" where
  "Clean path =
     (case path of
        [] \<Rightarrow> ''.''
      | c # _ \<Rightarrow>
          let rooted = (c = CHR ''/'');
              out = clean_elems rooted [] (split_sep path)
          in if rooted then CHR ''/'' # join_sep out
             else if out = [] then ''.''
             else join_sep out)"

text \<open>
  \<^verbatim>\<open>filepath.Join\<close>: leading empty elements are skipped, the rest is joined with the
  separator and cleaned; with nothing left the result is the empty string.
\<close>

definition Join :: "string list \<Rightarrow> string" where
  "Join elem =
     (case dropWhile (\<lambda>e. e = []) elem of
        [] \<Rightarrow> []
      | e # es \<Rightarrow> Clean (join_sep (e # es)))"

definition IsAbs :: "string \<Rightarrow> bool" where
  "IsAbs path = HasPrefix path ''/''"

text \<open>
  \<^verbatim>\<open>filepath.Abs\<close>: an absolute path is cleaned; a relative one is joined onto the
  working directory, and the call fails when \<^verbatim>\<open>os.Getwd\<close> fails. The working directory
  is the one piece of process state the function reads: \<open>cwd\<close> is the result of
  \<^verbatim>\<open>os.Getwd\<close>, \<open>None\<close> when it fails.
\<close>

definition Abs_path :: "string option \<Rightarrow> string \<Rightarrow> string option" where
  "Abs_path cwd path =
     (if IsAbs path then Some (Clean path)
      else (case cwd of None \<Rightarrow> None | Some wd \<Rightarrow> Some (Join [wd, path])))"

text \<open>
  \<^verbatim>\<open>filepath.Dir\<close>: everything up to the last separator, cleaned.
\<close>

definition Dir :: "string \<Rightarrow> string" where
  "Dir path = Clean (rev (dropWhile (\<lambda>c. c \<noteq> CHR ''/'') (rev path)))"

section \<open>The Path Sanitizer\<close>

definition validateZipFilePath :: "string option \<Rightarrow> string \<Rightarrow> string \<Rightarrow> bool" where
  "validateZipFilePath cwd filePath destDir =
     (let cleanPath = Clean filePath in
      case Abs_path cwd destDir of
        None \<Rightarrow> False
      | Some absDestDir \<Rightarrow>
          (case Abs_path cwd (Join [destDir, cleanPath]) of
             None \<Rightarrow> False
           | Some absFilePath \<Rightarrow> HasPrefix absFilePath (absDestDir @ PathSeparator)))"

definition isAllowedFileType :: "string \<Rightarrow> bool" where
  "isAllowedFileType fileName = HasSuffix fileName ''.zip''"

section \<open>Limits\<close>

text \<open>
  The limits of the handler. \<^verbatim>\<open>500 << 20\<close> and \<^verbatim>\<open>200 << 20\<close> are written out.
\<close>

definition maxZipEntries :: nat where
  "maxZipEntries = 2000"

definition maxTotalUncompressedBytes :: nat where
  "maxTotalUncompressedBytes = 524288000"

definition maxPerFileUncompressed :: nat where
  "maxPerFileUncompressed = 209715200"

definition maxCompressionRatio :: nat where
  "maxCompressionRatio = 100"

section \<open>Archive entries\<close>

text \<open>
  One \<^verbatim>\<open>Read\<close> of an entry's decompression stream into the 64 KiB buffer, together
  with the outcome of the \<^verbatim>\<open>Write\<close> that follows it when the handler gets that far:
  \<open>rdata\<close> is what the reader has to deliver (the call returns at most the buffer's
  length of it), \<open>rerr\<close> the error returned with it (\<open>None\<close> is \<^verbatim>\<open>nil\<close>), and
  \<open>wfail\<close> is \<open>Some (k, msg)\<close> when the write to the output file fails with message
  \<open>msg\<close> after \<open>k\<close> bytes.
\<close>

datatype read_err = EOF | ReadFailed string

record read_ev =
  rdata :: string
  rerr :: "read_err option"
  wfail :: "(nat \<times> string) option"

text \<open>
  An entry of the opened archive (\<^verbatim>\<open>zip.File\<close>): its declared metadata, as the archive
  states it, and the outcomes of the calls the extractor makes for it
  (\<^verbatim>\<open>os.MkdirAll\<close>, \<^verbatim>\<open>f.Open\<close>, \<^verbatim>\<open>os.OpenFile\<close>). \<open>stream\<close> is what the decompressor of
  the entry yields, read by read; after the listed reads it returns \<^verbatim>\<open>(0, io.EOF)\<close>.
  \<open>crc_ok\<close> says whether the checksum of the delivered bytes is the declared one.
\<close>

record zip_File =
  Name :: string
  UncompressedSize64 :: "64 word"
  UncompressedSize :: "32 word"
  CompressedSize64 :: "64 word"
  CompressedSize :: "32 word"
  ModeDir :: bool
  mkdir_err :: "string option"
  open_err :: "string option"
  create_err :: "string option"
  stream :: "read_ev list"
  crc_ok :: bool

text \<open>The buffer of the copy loop holds 64 KiB.\<close>

definition bufSize :: nat where
  "bufSize = 65536"

text \<open>Addition of \<^verbatim>\<open>uint64\<close> values wraps around.\<close>

definition u64_add :: "nat \<Rightarrow> nat \<Rightarrow> nat" where
  "u64_add a b = (a + b) mod 2 ^ 64"

text \<open>
  The reader that \<^verbatim>\<open>f.Open\<close> returns is the checksum reader of \<^verbatim>\<open>archive/zip\<close> around
  the decompressor. It counts the bytes it has passed on in \<open>nread\<close>: a read that takes
  the count beyond the declared \<^verbatim>\<open>UncompressedSize64\<close> returns no bytes and the format
  error; at the end of the stream a count other than the declared size gives no bytes and
  \<^verbatim>\<open>io.ErrUnexpectedEOF\<close>, and a checksum other than the declared one gives the checksum
  error in place of \<^verbatim>\<open>io.EOF\<close>. The result is the list of reads as the handler sees them;
  it ends with the first error.
\<close>

definition read_fails :: "string \<Rightarrow> read_ev" where
  "read_fails msg = \<lparr>rdata = [], rerr = Some (ReadFailed msg), wfail = None\<rparr>"

fun checksumReader :: "nat \<Rightarrow> bool \<Rightarrow> nat \<Rightarrow> read_ev list \<Rightarrow> read_ev list" where
  "checksumReader declared ok nread [] =
     (if nread \<noteq> declared then [read_fails ''unexpected EOF'']
      else if ok then []
      else [read_fails ''zip: checksum error''])"
| "checksumReader declared ok nread (ev # evs) =
     (let chunk = take bufSize (rdata ev);
          nread = u64_add nread (length chunk)
      in
      if nread > declared then [read_fails ''zip: not a valid zip file'']
      else
        (case rerr ev of
           None \<Rightarrow> ev\<lparr>rdata := chunk\<rparr> # checksumReader declared ok nread evs
         | Some EOF \<Rightarrow>
             if nread \<noteq> declared then [read_fails ''unexpected EOF'']
             else if ok then [ev\<lparr>rdata := chunk\<rparr>]
             else [ev\<lparr>rdata := chunk, rerr := Some (ReadFailed ''zip: checksum error'')\<rparr>]
         | Some (ReadFailed msg) \<Rightarrow> [ev\<lparr>rdata := chunk\<rparr>]))"

definition zip_Open :: "zip_File \<Rightarrow> read_ev list" where
  "zip_Open f = checksumReader (unat (UncompressedSize64 f)) (crc_ok f) 0 (stream f)"

section \<open>The Archive Bomb Detector\<close>

definition exempt :: "zip_File \<Rightarrow> bool" where
  "exempt f = HasPrefix (Name f) ''__MACOSX/''"

definition declared_uc :: "zip_File \<Rightarrow> 64 word" where
  "declared_uc f =
     (if UncompressedSize64 f = 0 \<and> UncompressedSize f > 0 then ucast (UncompressedSize f)
      else UncompressedSize64 f)"

definition declared_cs :: "zip_File \<Rightarrow> 64 word" where
  "declared_cs f =
     (if CompressedSize64 f = 0 \<and> CompressedSize f > 0 then ucast (CompressedSize f)
      else CompressedSize64 f)"

text \<open>
  The body of the loop of \<^verbatim>\<open>lolCheckForZipBomb\<close> for one entry: the error it returns, or
  the counters \<open>entries\<close> and \<open>totalUncompressed\<close> after it. The sum is a \<^verbatim>\<open>uint64\<close>
  and wraps around; the quotient is the unsigned integer quotient.
\<close>

definition bomb_entry :: "nat \<Rightarrow> 64 word \<Rightarrow> zip_File \<Rightarrow> string + nat \<times> 64 word" where
  "bomb_entry entries totalUncompressed f =
     (if exempt f then Inr (entries, totalUncompressed)
      else
        let entries = entries + 1 in
        if entries > maxZipEntries then Inl ''too many files in archive''
        else
          let uc = declared_uc f;
              totalUncompressed = totalUncompressed + uc
          in
          if totalUncompressed > of_nat maxTotalUncompressedBytes
          then Inl ''total uncompressed size exceeds limit''
          else
            let cs = declared_cs f in
            if cs > 0 \<and> uc > 0 \<and> uc div cs > of_nat maxCompressionRatio
            then Inl ''excessive compression ratio detected''
            else if uc > of_nat maxPerFileUncompressed
            then Inl ''a file exceeds per-file uncompressed size limit''
            else Inr (entries, totalUncompressed))"

fun bomb_loop :: "nat \<Rightarrow> 64 word \<Rightarrow> zip_File list \<Rightarrow> string option" where
  "bomb_loop entries totalUncompressed [] = None"
| "bomb_loop entries totalUncompressed (f # fs) =
     (case bomb_entry entries totalUncompressed f of
        Inl err \<Rightarrow> Some err
      | Inr (entries', totalUncompressed') \<Rightarrow> bomb_loop entries' totalUncompressed' fs)"

definition lolCheckForZipBomb :: "zip_File list \<Rightarrow> string option" where
  "lolCheckForZipBomb zr = bomb_loop 0 0 zr"

section \<open>Token sanitization\<close>

text \<open>
  \<^verbatim>\<open>strings.Map\<close> walks the token rune by rune, so the token is modelled as the list of
  its runes (Unicode code points; Go decodes a byte that is not valid UTF-8 as U+FFFD).
  \<^verbatim>\<open>unicode.IsSpace\<close>: the Latin-1 cases of its switch, then the rest of the
  \<^verbatim>\<open>White_Space\<close> table.
\<close>

type_synonym rune = nat

definition IsSpace :: "rune \<Rightarrow> bool" where
  "IsSpace r =
     (if r \<le> 255 then r \<in> {9, 10, 11, 12, 13, 32, 133, 160}
      else r = 5760 \<or> (8192 \<le> r \<and> r \<le> 8202) \<or> r = 8232 \<or> r = 8233 \<or> r = 8239
           \<or> r = 8287 \<or> r = 12288)"

text \<open>
  \<^verbatim>\<open>strings.ReplaceAll\<close> with a pattern of one ASCII character: every occurrence is
  replaced, left to right.
\<close>

definition ReplaceAll :: "rune list \<Rightarrow> rune \<Rightarrow> rune list \<Rightarrow> rune list" where
  "ReplaceAll s old new = concat (map (\<lambda>r. if r = old then new else [r]) s)"

text \<open>
  Rune 92 is the backslash and rune 34 the double quote. The two replacement strings are
  the raw Go literals of the source: two backslashes, and two backslashes followed by a
  double quote.
\<close>

definition sanitizeForAirtableFormula :: "rune list \<Rightarrow> rune list" where
  "sanitizeForAirtableFormula input =
     (let input = filter (\<lambda>r. \<not> IsSpace r) input;
          input = ReplaceAll input 92 [92, 92];
          input = ReplaceAll input 34 [92, 92, 34]
      in input)"

text \<open>
  What the claim about the sanitizer speaks of: in a formula string a backslash escapes
  the character after it, so a double quote is unescaped when the scan reaches it outside
  an escape. \<open>esc\<close> says that the previous character was an escaping backslash.
\<close>

fun unescaped_quote :: "bool \<Rightarrow> rune list \<Rightarrow> bool" where
  "unescaped_quote esc [] = False"
| "unescaped_quote esc (r # rs) =
     (if esc then unescaped_quote False rs
      else if r = 92 then unescaped_quote True rs
      else if r = 34 then True
      else unescaped_quote False rs)"

section \<open>Responses and the file system\<close>

text \<open>
  What the handler sends: \<^verbatim>\<open>http.Error\<close> writes a plain-text body, the message and a
  newline, with the status; \<^verbatim>\<open>jsonValidationError\<close> and the success path write a JSON
  object (the encoder writes the keys of a map in sorted order, the fields of a struct in
  declaration order).
\<close>

datatype json = JString string | JBool bool

datatype response =
    Plain nat string
  | Json nat "(string \<times> json) list"

definition http_Error :: "string \<Rightarrow> nat \<Rightarrow> response" where
  "http_Error msg code = Plain code (msg @ [CHR 0x0A])"

definition jsonValidationError :: "nat \<Rightarrow> string \<Rightarrow> string \<Rightarrow> response" where
  "jsonValidationError status msg details =
     Json status
       [(''details'', JString details), (''error'', JString msg),
        (''validationError'', JBool True)]"

definition upload_ok :: "string \<Rightarrow> response" where
  "upload_ok gameId =
     Json 200
       [(''ok'', JBool True), (''gameId'', JString gameId),
        (''playUrl'', JString (''/play/'' @ gameId @ ''/''))]"

text \<open>
  The state a request works on: the regular files of the host (path to contents), its
  directories, the handler's counter \<^verbatim>\<open>totalWritten\<close>, the folders handed to the
  replication goroutine, and the log \<open>wlog\<close> of the writes made to extracted files: the
  path and the number of bytes of every \<^verbatim>\<open>outFile.Write\<close> that reached the disk. The log
  is not a variable of the program; it records what the claims about written chunks
  speak of.
\<close>

record state =
  files :: "string \<rightharpoonup> string"
  dirs :: "string set"
  totalWritten :: nat
  wlog :: "(string \<times> nat) list"
  dispatched :: "string list"

definition os_Remove :: "string \<Rightarrow> state \<Rightarrow> state" where
  "os_Remove path s = s\<lparr>files := (files s)(path := None)\<rparr>"

definition dir_chain :: "string \<Rightarrow> string list" where
  "dir_chain path = filter (\<lambda>p. p \<noteq> []) (map join_sep (prefixes (split_sep path)))"

definition os_MkdirAll :: "string \<Rightarrow> state \<Rightarrow> state" where
  "os_MkdirAll path s = s\<lparr>dirs := dirs s \<union> set (dir_chain path)\<rparr>"

text \<open>
  \<^verbatim>\<open>os.OpenFile(fpath, O_WRONLY|O_CREATE|O_TRUNC, mode)\<close> leaves an empty file at the
  path; a write to the open file appends to it.
\<close>

definition OpenFile_trunc :: "string \<Rightarrow> state \<Rightarrow> state" where
  "OpenFile_trunc path s = s\<lparr>files := (files s)(path \<mapsto> [])\<rparr>"

definition file_Write :: "string \<Rightarrow> string \<Rightarrow> state \<Rightarrow> state" where
  "file_Write path b s =
     s\<lparr>files := (files s)(path \<mapsto> (case files s path of None \<Rightarrow> b | Some c \<Rightarrow> c @ b)),
       wlog := wlog s @ [(path, length b)]\<rparr>"

definition written_bytes :: "state \<Rightarrow> nat" where
  "written_bytes s = sum_list (map snd (wlog s))"

section \<open>The Streaming Extractor\<close>

text \<open>
  The \<^verbatim>\<open>if n > 0\<close> block of the copy loop for one read: count the chunk, check the two
  budgets, write. It aborts the request with a response, or it gives the new
  \<^verbatim>\<open>writtenForFile\<close> and state.
\<close>

definition copy_chunk ::
  "string \<Rightarrow> string \<Rightarrow> nat \<Rightarrow> state \<Rightarrow> read_ev \<Rightarrow> response \<times> state + nat \<times> state" where
  "copy_chunk fpath name writtenForFile s ev =
     (let chunk = take bufSize (rdata ev);
          n = length chunk
      in
      if n > 0 then
        let writtenForFile = u64_add writtenForFile n;
            s = s\<lparr>totalWritten := u64_add (totalWritten s) n\<rparr>
        in
        if writtenForFile > maxPerFileUncompressed
        then Inl (jsonValidationError 400 ''File too large after decompression'' name,
                  os_Remove fpath s)
        else if totalWritten s > maxTotalUncompressedBytes
        then Inl (jsonValidationError 400 ''Archive total uncompressed size limit exceeded'' [],
                  os_Remove fpath s)
        else
          (case wfail ev of
             Some (k, msg) \<Rightarrow>
               Inl (http_Error (''Failed to write file: '' @ msg) 500,
                    file_Write fpath (take k chunk) s)
           | None \<Rightarrow> Inr (writtenForFile, file_Write fpath chunk s))
      else Inr (writtenForFile, s))"

fun copy_loop ::
  "string \<Rightarrow> string \<Rightarrow> nat \<Rightarrow> state \<Rightarrow> read_ev list \<Rightarrow> response option \<times> state" where
  "copy_loop fpath name writtenForFile s [] = (None, s)"
| "copy_loop fpath name writtenForFile s (ev # evs) =
     (case copy_chunk fpath name writtenForFile s ev of
        Inl (resp, s') \<Rightarrow> (Some resp, s')
      | Inr (writtenForFile', s') \<Rightarrow>
          (case rerr ev of
             None \<Rightarrow> copy_loop fpath name writtenForFile' s' evs
           | Some EOF \<Rightarrow> (None, s')
           | Some (ReadFailed msg) \<Rightarrow>
               (Some (http_Error (''Failed to read file in zip: '' @ msg) 500), s')))"

text \<open>
  \<^verbatim>\<open>f.FileInfo().IsDir()\<close>: the directory bit of the entry's mode, which the zip package
  also sets for a name that ends with a slash.
\<close>

definition IsDir :: "zip_File \<Rightarrow> bool" where
  "IsDir f = (ModeDir f \<or> HasSuffix (Name f) ''/'')"

text \<open>
  The body of the extraction loop for one entry: \<open>None\<close> is \<^verbatim>\<open>continue\<close> or the end of
  the body, \<open>Some\<close> a response followed by \<^verbatim>\<open>return\<close>. The error of the
  \<^verbatim>\<open>os.MkdirAll\<close> for a directory entry is ignored.
\<close>

definition extract_entry ::
  "string option \<Rightarrow> string \<Rightarrow> state \<Rightarrow> zip_File \<Rightarrow> response option \<times> state" where
  "extract_entry cwd destDir s f =
     (if HasPrefix (Name f) ''__MACOSX/'' then (None, s)
      else if \<not> validateZipFilePath cwd (Name f) destDir
      then (Some (http_Error (''Invalid file path in zip: '' @ Name f) 400), s)
      else if \<not> isAllowedFileType (Name f)
      then (Some (http_Error (''File type not allowed: '' @ Name f) 400), s)
      else
        let fpath = Join [destDir, Name f] in
        if IsDir f
        then (None, (case mkdir_err f of None \<Rightarrow> os_MkdirAll fpath s | Some e \<Rightarrow> s))
        else
          (case mkdir_err f of
             Some e \<Rightarrow> (Some (http_Error (''Failed to create directory: '' @ e) 500), s)
           | None \<Rightarrow>
               let s = os_MkdirAll (Dir fpath) s in
               (case open_err f of
                  Some e \<Rightarrow> (Some (http_Error (''Failed to open file in zip: '' @ e) 500), s)
                | None \<Rightarrow>
                    (case create_err f of
                       Some e \<Rightarrow> (Some (http_Error (''Failed to create file: '' @ e) 500), s)
                     | None \<Rightarrow>
                         copy_loop fpath (Name f) 0 (OpenFile_trunc fpath s) (zip_Open f)))))"

fun extract_loop ::
  "string option \<Rightarrow> string \<Rightarrow> state \<Rightarrow> zip_File list \<Rightarrow> response option \<times> state" where
  "extract_loop cwd destDir s [] = (None, s)"
| "extract_loop cwd destDir s (f # fs) =
     (case extract_entry cwd destDir s f of
        (Some resp, s') \<Rightarrow> (Some resp, s')
      | (None, s') \<Rightarrow> extract_loop cwd destDir s' fs)"

section \<open>The Upload Intake Controller\<close>

text \<open>
  The request as the handler reads it, and the outcomes of the calls it makes to the
  outside: the identity lookup (an error, or the number of records found for the
  sanitized token), the temporary file, the copy into it (\<open>Some (k, msg)\<close>: it fails
  after \<open>k\<close> bytes), the archive reader, the identifier generator, the destination
  directory and the working directory.
\<close>

record request =
  Method :: string
  multipart_err :: "string option"
  Authorization :: "rune list"
  form_file :: "string + string"

record environment =
  airtable :: "rune list \<Rightarrow> string + nat"
  create_temp :: "string + string"
  copy_err :: "(nat \<times> string) option"
  close_err :: "string option"
  open_reader :: "string + zip_File list"
  new_uuid :: "string + string"
  mkdir_dest_err :: "string option"
  getwd :: "string option"

text \<open>The runes of \<^verbatim>\<open>"Bearer "\<close>.\<close>

definition bearer :: "rune list" where
  "bearer = [66, 101, 97, 114, 101, 114, 32]"

text \<open>
  From the opened archive on: mint the identifier, create the destination directory, run
  the detector, extract, dispatch, respond. The result \<open>None\<close> is \<^verbatim>\<open>log.Fatal\<close>: the
  process exits.
\<close>

definition handle_archive ::
  "environment \<Rightarrow> zip_File list \<Rightarrow> state \<Rightarrow> response option \<times> state" where
  "handle_archive env zr s =
     (case new_uuid env of
        Inl e \<Rightarrow> (None, s)
      | Inr gameId \<Rightarrow>
          let destDir = Join [''/games/'' @ gameId @ ''/''] in
          (case mkdir_dest_err env of
             Some e \<Rightarrow> (Some (http_Error (''Failed to create game directory: '' @ e) 500), s)
           | None \<Rightarrow>
               let s = os_MkdirAll destDir s in
               (case lolCheckForZipBomb zr of
                  Some e \<Rightarrow> (Some (jsonValidationError 400 ''Zip validation failed'' e), s)
                | None \<Rightarrow>
                    (case extract_loop (getwd env) destDir (s\<lparr>totalWritten := 0, wlog := []\<rparr>) zr of
                       (Some resp, s') \<Rightarrow> (Some resp, s')
                     | (None, s') \<Rightarrow>
                         (Some (upload_ok gameId), s'\<lparr>dispatched := dispatched s' @ [destDir]\<rparr>)))))"

text \<open>
  From the created temporary file up to the opened archive.
\<close>

definition handle_temp ::
  "environment \<Rightarrow> string \<Rightarrow> string \<Rightarrow> state \<Rightarrow> response option \<times> state" where
  "handle_temp env tmp upload s =
     (case copy_err env of
        Some (k, e) \<Rightarrow>
          (Some (http_Error (''Failed to write uploaded file: '' @ e) 500),
           s\<lparr>files := (files s)(tmp \<mapsto> take k upload)\<rparr>)
      | None \<Rightarrow>
          let s = s\<lparr>files := (files s)(tmp \<mapsto> upload)\<rparr> in
          (case close_err env of
             Some e \<Rightarrow> (Some (http_Error (''Failed to close temp file: '' @ e) 500), s)
           | None \<Rightarrow>
               (case open_reader env of
                  Inl e \<Rightarrow>
                    (Some (http_Error (''Uploaded file is not a valid zip: '' @ e) 400), s)
                | Inr zr \<Rightarrow> handle_archive env zr s)))"

text \<open>
  \<^verbatim>\<open>defer os.Remove(tmpFile.Name())\<close>: the deferred call runs when the handler returns.
  It does not run when the process exits.
\<close>

definition deferred_Remove :: "string \<Rightarrow> response option \<times> state \<Rightarrow> response option \<times> state" where
  "deferred_Remove tmp res =
     (case res of
        (None, s) \<Rightarrow> (None, s)
      | (Some resp, s) \<Rightarrow> (Some resp, os_Remove tmp s))"

definition GameUploadHandler ::
  "environment \<Rightarrow> request \<Rightarrow> state \<Rightarrow> response option \<times> state" where
  "GameUploadHandler env r s =
     (if Method r \<noteq> ''POST'' then (Some (http_Error ''Method not allowed'' 405), s)
      else
        (case multipart_err r of
           Some e \<Rightarrow> (Some (http_Error (''Failed to parse form: '' @ e) 400), s)
         | None \<Rightarrow>
             if Authorization r = []
             then (Some (http_Error ''Authorization header is missing'' 401), s)
             else
               let authHeader =
                     (if HasPrefix (Authorization r) bearer
                      then TrimPrefix (Authorization r) bearer
                      else Authorization r);
                   sanitizedHeader = sanitizeForAirtableFormula authHeader
               in
               (case airtable env sanitizedHeader of
                  Inl e \<Rightarrow> (Some (http_Error ''Failed to validate token..'' 500), s)
                | Inr records \<Rightarrow>
                    if records = 0
                    then (Some (http_Error ''Invalid or expired token'' 401), s)
                    else
                      (case form_file r of
                         Inl e \<Rightarrow>
                           (Some (http_Error (''Missing file field 'file': '' @ e) 400), s)
                       | Inr upload \<Rightarrow>
                           (case create_temp env of
                              Inl e \<Rightarrow>
                                (Some (http_Error (''Failed to create temporary file: '' @ e) 500),
                                 s)
                            | Inr tmp \<Rightarrow>
                                deferred_Remove tmp
                                  (handle_temp env tmp upload
                                     (s\<lparr>files := (files s)(tmp \<mapsto> [])\<rparr>)))))))"

section \<open>Notions used in the statements\<close>



text \<open>The size of the file at a path, 0 when there is none.\<close>

definition flen :: "state \<Rightarrow> string \<Rightarrow> nat" where
  "flen s p = (case files s p of None \<Rightarrow> 0 | Some c \<Rightarrow> length c)"

text \<open>The two responses of the copy loop to a breached byte budget.\<close>

fun is_size_rejection :: "response \<Rightarrow> bool" where
  "is_size_rejection (Json st fs) =
     (st = 400 \<and>
      (map_of fs ''error'' = Some (JString ''File too large after decompression'') \<or>
       map_of fs ''error'' = Some (JString ''Archive total uncompressed size limit exceeded'')))"
| "is_size_rejection (Plain st b) = False"

text \<open>
  The structured validation-error body: a JSON object with the fields \<^verbatim>\<open>error\<close>,
  \<^verbatim>\<open>validationError: true\<close> and \<^verbatim>\<open>details\<close>.
\<close>

fun is_validation_error :: "response \<Rightarrow> bool" where
  "is_validation_error (Json st fs) =
     (map_of fs ''validationError'' = Some (JBool True) \<and>
      map_of fs ''error'' \<noteq> None \<and> map_of fs ''details'' \<noteq> None)"
| "is_validation_error (Plain st b) = False"

text \<open>
  The counter agrees with the log of writes, and is within the aggregate budget: what
  holds whenever the copy loop is at its head.
\<close>

definition counters_agree :: "state \<Rightarrow> bool" where
  "counters_agree s =
     (written_bytes s = totalWritten s \<and> totalWritten s \<le> maxTotalUncompressedBytes)"

definition copy_post :: "string \<Rightarrow> state \<Rightarrow> response option \<times> state \<Rightarrow> bool" where
  "copy_post fpath s res =
     (case res of (r, s') \<Rightarrow>
        (\<forall>p. p \<noteq> fpath \<longrightarrow> files s' p = files s p) \<and>
        flen s' fpath \<le> maxPerFileUncompressed \<and>
        written_bytes s' \<le> maxTotalUncompressedBytes \<and>
        written_bytes s' \<le> totalWritten s' \<and>
        (r = None \<longrightarrow> counters_agree s') \<and>
        (\<forall>resp. r = Some resp \<and> is_size_rejection resp \<longrightarrow>
           files s' fpath = None \<and> written_bytes s' < totalWritten s'))"

text \<open>
  Every file of \<open>s'\<close> is as it was in \<open>s\<close> or is within the per-file budget.
\<close>

definition bounded_files :: "state \<Rightarrow> state \<Rightarrow> bool" where
  "bounded_files s s' =
     (\<forall>p c. files s' p = Some c \<longrightarrow>
        files s p = Some c \<or> length c \<le> maxPerFileUncompressed)"

definition entry_post ::
  "string \<Rightarrow> zip_File list \<Rightarrow> state \<Rightarrow> response option \<times> state \<Rightarrow> bool" where
  "entry_post destDir fs s res =
     (case res of (r, s') \<Rightarrow>
        bounded_files s s' \<and>
        written_bytes s' \<le> maxTotalUncompressedBytes \<and>
        written_bytes s' \<le> totalWritten s' \<and>
        (r = None \<longrightarrow> counters_agree s') \<and>
        (\<forall>resp. r = Some resp \<and> is_size_rejection resp \<longrightarrow>
           (\<exists>f\<in>set fs. files s' (Join [destDir, Name f]) = None) \<and>
           written_bytes s' < totalWritten s'))"

text \<open>
  The token the handler looks up, and the conditions under which a request gets past
  the identity check.
\<close>

definition token :: "request \<Rightarrow> rune list" where
  "token r =
     (if HasPrefix (Authorization r) bearer then TrimPrefix (Authorization r) bearer
      else Authorization r)"

definition accepted :: "environment \<Rightarrow> request \<Rightarrow> bool" where
  "accepted env r =
     (Method r = ''POST'' \<and> multipart_err r = None \<and> Authorization r \<noteq> [] \<and>
      (case airtable env (sanitizeForAirtableFormula (token r)) of
         Inl e \<Rightarrow> False
       | Inr records \<Rightarrow> records \<noteq> 0))"

text \<open>
  The counters with which the detector comes to the end of a list of entries, when it
  rejects none of them.
\<close>

fun bomb_pass :: "nat \<Rightarrow> 64 word \<Rightarrow> zip_File list \<Rightarrow> (nat \<times> 64 word) option" where
  "bomb_pass entries totalUncompressed [] = Some (entries, totalUncompressed)"
| "bomb_pass entries totalUncompressed (f # fs) =
     (case bomb_entry entries totalUncompressed f of
        Inl err \<Rightarrow> None
      | Inr (entries', totalUncompressed') \<Rightarrow> bomb_pass entries' totalUncompressed' fs)"

text \<open>
  The destination directory of a submission, the conditions under which a request gets
  as far as the detector and as far as the extraction loop, and the state in which the
  loop then starts.
\<close>

definition reaches_detector ::
  "environment \<Rightarrow> request \<Rightarrow> string \<Rightarrow> string \<Rightarrow> zip_File list \<Rightarrow> string \<Rightarrow> bool" where
  "reaches_detector env r upload tmp zr gameId =
     (accepted env r \<and> form_file r = Inr upload \<and> create_temp env = Inr tmp \<and>
      copy_err env = None \<and> close_err env = None \<and> open_reader env = Inr zr \<and>
      new_uuid env = Inr gameId \<and> mkdir_dest_err env = None)"

definition destDir_of :: "string \<Rightarrow> string" where
  "destDir_of gameId = Join [''/games/'' @ gameId @ ''/'']"

definition reaches_extraction ::
  "environment \<Rightarrow> request \<Rightarrow> string \<Rightarrow> string \<Rightarrow> zip_File list \<Rightarrow> string \<Rightarrow> bool" where
  "reaches_extraction env r upload tmp zr gameId =
     (accepted env r \<and> form_file r = Inr upload \<and> create_temp env = Inr tmp \<and>
      copy_err env = None \<and> close_err env = None \<and> open_reader env = Inr zr \<and>
      new_uuid env = Inr gameId \<and> mkdir_dest_err env = None \<and>
      lolCheckForZipBomb zr = None)"

definition extraction_start :: "string \<Rightarrow> string \<Rightarrow> string \<Rightarrow> state \<Rightarrow> state" where
  "extraction_start tmp upload gameId s =
     (os_MkdirAll (destDir_of gameId) (s\<lparr>files := (files s)(tmp \<mapsto> upload)\<rparr>))
       \<lparr>totalWritten := 0, wlog := []\<rparr>"

section \<open>Concrete requests and archives\<close>

definition s0 :: state where
  "s0 = \<lparr>files = Map.empty, dirs = {}, totalWritten = 0, wlog = [], dispatched = []\<rparr>"

text \<open>
  A file entry with honest metadata whose stream delivers the contents in one read, and a
  directory entry.
\<close>

definition file_entry :: "string \<Rightarrow> string \<Rightarrow> zip_File" where
  "file_entry name content =
     \<lparr>Name = name,
      UncompressedSize64 = of_nat (length content), UncompressedSize = of_nat (length content),
      CompressedSize64 = of_nat (length content), CompressedSize = of_nat (length content),
      ModeDir = False, mkdir_err = None, open_err = None, create_err = None,
      stream = [\<lparr>rdata = content, rerr = None, wfail = None\<rparr>], crc_ok = True\<rparr>"

definition dir_entry :: "string \<Rightarrow> zip_File" where
  "dir_entry name =
     \<lparr>Name = name, UncompressedSize64 = 0, UncompressedSize = 0,
      CompressedSize64 = 0, CompressedSize = 0,
      ModeDir = True, mkdir_err = None, open_err = None, create_err = None, stream = [],
      crc_ok = True\<rparr>"

definition game_id :: string where
  "game_id = ''0198a7c2-5b1e-7c3a-9f00-1234567890ab''"

definition game_dir :: string where
  "game_dir = ''/games/0198a7c2-5b1e-7c3a-9f00-1234567890ab''"

definition tmp_name :: string where
  "tmp_name = ''/tmp/game-upload-1.zip''"

text \<open>
  An environment in which every call to the outside succeeds and the token is known, and
  a well-formed request with the token \<^verbatim>\<open>tok\<close>.
\<close>

definition env_ok :: "zip_File list \<Rightarrow> environment" where
  "env_ok zr =
     \<lparr>airtable = (\<lambda>t. Inr 1), create_temp = Inr tmp_name, copy_err = None,
      close_err = None, open_reader = Inr zr, new_uuid = Inr game_id,
      mkdir_dest_err = None, getwd = Some ''/app''\<rparr>"

definition req_ok :: request where
  "req_ok =
     \<lparr>Method = ''POST'', multipart_err = None, Authorization = bearer @ [116, 111, 107],
      form_file = Inr ''PK''\<rparr>"

text \<open>The same environment with a failing identifier generator.\<close>

definition env_uuid_fails :: "zip_File list \<Rightarrow> environment" where
  "env_uuid_fails zr = (env_ok zr)\<lparr>new_uuid := Inl ''unexpected EOF''\<rparr>"

text \<open>The archive of the upload scenario: two files and a directory.\<close>

definition three_entries :: "zip_File list" where
  "three_entries =
     [file_entry ''a.txt'' ''0123456789'',
      file_entry ''b/c.txt'' ''01234567890123456789'',
      dir_entry ''b/'']"

text \<open>An entry that climbs out of the destination, plain and under the exempted prefix.\<close>

definition evil_entry :: zip_File where
  "evil_entry = file_entry ''../../evil.txt'' ''x''"

definition macosx_evil_entry :: zip_File where
  "macosx_evil_entry = file_entry ''__MACOSX/../../evil.txt'' ''x''"

text \<open>An entry that declares 201 bytes compressed to 2.\<close>

definition ratio_entry :: zip_File where
  "ratio_entry =
     \<lparr>Name = ''a.zip'', UncompressedSize64 = 201, UncompressedSize = 201,
      CompressedSize64 = 2, CompressedSize = 2,
      ModeDir = False, mkdir_err = None, open_err = None, create_err = None, stream = [],
      crc_ok = True\<rparr>"



text \<open>
  An honest entry of 10 bytes whose write fails after 4 bytes, the disk being full.
\<close>

definition failing_write :: read_ev where
  "failing_write =
     \<lparr>rdata = ''0123456789'', rerr = None, wfail = Some (4, ''no space left on device'')\<rparr>"

definition write_fail_entry :: zip_File where
  "write_fail_entry = (file_entry ''a.zip'' ''0123456789'')\<lparr>stream := [failing_write]\<rparr>"

text \<open>An entry that declares 202 bytes compressed to 2.\<close>

definition over_ratio_entry :: zip_File where
  "over_ratio_entry = ratio_entry\<lparr>UncompressedSize64 := 202, UncompressedSize := 202\<rparr>"

text \<open>A small entry that the extractor accepts.\<close>

definition small_entry :: zip_File where
  "small_entry = file_entry ''a.zip'' ''0123456789''"


section \<open>Properties of the path functions\<close>







lemma Clean_Cons:
  "Clean (c # cs) =
     (if c = CHR ''/'' then CHR ''/'' # join_sep (clean_elems True [] (split_sep (c # cs)))
      else if clean_elems False [] (split_sep (c # cs)) = [] then ''.''
      else join_sep (clean_elems False [] (split_sep (c # cs))))"
  by (simp add: Clean_def Let_def del: split_sep.simps)






section \<open>Properties of the copy loop and the extraction loop\<close>

lemma u64_add_small: "a \<le> 524288000 \<Longrightarrow> b \<le> 65536 \<Longrightarrow> u64_add a b = a + b"
  by (simp add: u64_add_def)

lemma chunk_len: "length (take bufSize d) \<le> 65536"
  by (simp add: bufSize_def)

lemma written_bytes_simps [simp]:
  "written_bytes (s\<lparr>totalWritten := t\<rparr>) = written_bytes s"
  "written_bytes (os_Remove p s) = written_bytes s"
  "written_bytes (file_Write p b s) = written_bytes s + length b"
  "written_bytes (os_MkdirAll p s) = written_bytes s"
  "written_bytes (OpenFile_trunc p s) = written_bytes s"
  by (simp_all add: written_bytes_def os_Remove_def file_Write_def os_MkdirAll_def OpenFile_trunc_def)

lemma totalWritten_simps [simp]:
  "totalWritten (os_Remove p s) = totalWritten s"
  "totalWritten (file_Write p b s) = totalWritten s"
  "totalWritten (os_MkdirAll p s) = totalWritten s"
  "totalWritten (OpenFile_trunc p s) = totalWritten s"
  by (simp_all add: os_Remove_def file_Write_def os_MkdirAll_def OpenFile_trunc_def)

lemma files_simps [simp]:
  "files (os_Remove p s) = (files s)(p := None)"
  "files (os_MkdirAll p s) = files s"
  "files (OpenFile_trunc p s) = (files s)(p \<mapsto> [])"
  "files (file_Write p b s) q =
     (if q = p then Some ((case files s p of None \<Rightarrow> [] | Some c \<Rightarrow> c) @ b) else files s q)"
  by (auto simp: os_Remove_def file_Write_def os_MkdirAll_def OpenFile_trunc_def split: option.splits)

lemma flen_simps [simp]:
  "flen (s\<lparr>totalWritten := t\<rparr>) p = flen s p"
  "flen (file_Write p b s) q = (if q = p then flen s p + length b else flen s q)"
  "flen (OpenFile_trunc p s) p = 0"
  "flen (os_Remove p s) p = 0"
  by (auto simp: flen_def split: option.splits)

text \<open>What one chunk does, with the wrap-around ruled out.\<close>

lemma copy_chunk_unfold:
  assumes "writtenForFile \<le> maxPerFileUncompressed" "totalWritten s \<le> maxTotalUncompressedBytes"
  shows "copy_chunk fpath name writtenForFile s ev =
     (let chunk = take bufSize (rdata ev); n = length chunk;
          s1 = s\<lparr>totalWritten := totalWritten s + n\<rparr> in
      if n = 0 then Inr (writtenForFile, s)
      else if writtenForFile + n > maxPerFileUncompressed
      then Inl (jsonValidationError 400 ''File too large after decompression'' name, os_Remove fpath s1)
      else if totalWritten s + n > maxTotalUncompressedBytes
      then Inl (jsonValidationError 400 ''Archive total uncompressed size limit exceeded'' [], os_Remove fpath s1)
      else (case wfail ev of
              Some (k, msg) \<Rightarrow> Inl (http_Error (''Failed to write file: '' @ msg) 500, file_Write fpath (take k chunk) s1)
            | None \<Rightarrow> Inr (writtenForFile + n, file_Write fpath chunk s1)))"
proof -
  have a: "u64_add writtenForFile (length (take bufSize (rdata ev))) = writtenForFile + length (take bufSize (rdata ev))"
    using assms(1) chunk_len [of "rdata ev"]
    by (intro u64_add_small) (simp_all add: maxPerFileUncompressed_def)
  have b: "u64_add (totalWritten s) (length (take bufSize (rdata ev))) = totalWritten s + length (take bufSize (rdata ev))"
    using assms(2) chunk_len [of "rdata ev"]
    by (intro u64_add_small) (simp_all add: maxTotalUncompressedBytes_def)
  show ?thesis
    unfolding copy_chunk_def Let_def a b
    by (simp split: option.splits del: length_take take_eq_Nil take_eq_Nil2)
qed

lemma copy_post_frame:
  assumes "copy_post fpath s1 res"
    and "\<forall>p. p \<noteq> fpath \<longrightarrow> files s1 p = files s p"
  shows "copy_post fpath s res"
  using assms by (auto simp: copy_post_def)

lemma size_rejection_simps [simp]:
  "is_size_rejection (jsonValidationError 400 ''File too large after decompression'' name)"
  "is_size_rejection (jsonValidationError 400 ''Archive total uncompressed size limit exceeded'' d)"
  "\<not> is_size_rejection (http_Error msg code)"
  by (simp_all add: jsonValidationError_def http_Error_def)

lemma copy_loop_post:
  assumes "writtenForFile \<le> maxPerFileUncompressed" "counters_agree s"
    and "flen s fpath \<le> writtenForFile"
  shows "copy_post fpath s (copy_loop fpath name writtenForFile s evs)"
  using assms
proof (induction evs arbitrary: writtenForFile s)
  case Nil
  then show ?case by (simp add: copy_post_def counters_agree_def)
next
  case (Cons ev evs)
  define chunk where "chunk = take bufSize (rdata ev)"
  define n where "n = length chunk"
  define s1 where "s1 = s\<lparr>totalWritten := totalWritten s + n\<rparr>"
  from Cons.prems have tw: "totalWritten s \<le> maxTotalUncompressedBytes"
    and wb: "written_bytes s = totalWritten s"
    by (simp_all add: counters_agree_def)
  note unf = copy_chunk_unfold [OF Cons.prems(1) tw, of fpath name ev, unfolded Let_def,
      folded chunk_def, folded n_def, folded s1_def]
  show ?case
  proof (cases "n = 0")
    case True
    then have cc: "copy_chunk fpath name writtenForFile s ev = Inr (writtenForFile, s)"
      using unf by simp
    show ?thesis
    proof (cases "rerr ev")
      case None
      then show ?thesis using cc Cons.IH [OF Cons.prems] by simp
    next
      case (Some e)
      then show ?thesis using cc Cons.prems
        by (cases e) (simp_all add: copy_post_def counters_agree_def)
    qed
  next
    case pos: False
    show ?thesis
    proof (cases "writtenForFile + n > maxPerFileUncompressed")
      case True
      then have "copy_chunk fpath name writtenForFile s ev =
          Inl (jsonValidationError 400 ''File too large after decompression'' name, os_Remove fpath s1)"
        using unf pos by simp
      then show ?thesis using pos wb tw
        by (simp add: copy_post_def s1_def)
    next
      case perfile: False
      show ?thesis
      proof (cases "totalWritten s + n > maxTotalUncompressedBytes")
        case True
        then have "copy_chunk fpath name writtenForFile s ev =
          Inl (jsonValidationError 400 ''Archive total uncompressed size limit exceeded'' [], os_Remove fpath s1)"
          using unf pos perfile by simp
        then show ?thesis using pos wb tw
          by (simp add: copy_post_def s1_def)
      next
        case total: False
        show ?thesis
        proof (cases "wfail ev")
          case (Some km)
          obtain k msg where km: "km = (k, msg)" by (cases km)
          have "copy_chunk fpath name writtenForFile s ev =
             Inl (http_Error (''Failed to write file: '' @ msg) 500, file_Write fpath (take k chunk) s1)"
            using unf pos perfile total Some km by simp
          moreover have "length (take k chunk) \<le> n" by (simp add: n_def)
          ultimately show ?thesis using wb tw perfile total Cons.prems(3)
            by (simp add: copy_post_def s1_def)
        next
          case None
          define s2 where "s2 = file_Write fpath chunk s1"
          have cc: "copy_chunk fpath name writtenForFile s ev = Inr (writtenForFile + n, s2)"
            using unf pos perfile total None by (simp add: s2_def)
          have p1: "writtenForFile + n \<le> maxPerFileUncompressed" using perfile by simp
          have p2: "counters_agree s2"
            using wb total by (simp add: counters_agree_def s2_def s1_def n_def)
          have p3: "flen s2 fpath \<le> writtenForFile + n"
            using Cons.prems(3) by (simp add: s2_def s1_def n_def)
          have frame: "\<forall>p. p \<noteq> fpath \<longrightarrow> files s2 p = files s p"
            by (simp add: s2_def s1_def)
          show ?thesis
          proof (cases "rerr ev")
            case None
            then show ?thesis
              using cc copy_post_frame [OF Cons.IH [OF p1 p2 p3] frame] by simp
          next
            case (Some e)
            then show ?thesis using cc p1 p2 p3 frame
              by (cases e) (simp_all add: copy_post_def counters_agree_def)
          qed
        qed
      qed
    qed
  qed
qed

lemma entry_post_same:
  "counters_agree s \<Longrightarrow> r = None \<or> (\<exists>m c. r = Some (http_Error m c)) \<Longrightarrow>
   files s' = files s \<Longrightarrow> wlog s' = wlog s \<Longrightarrow> totalWritten s' = totalWritten s \<Longrightarrow>
   entry_post destDir fs s (r, s')"
  by (auto simp: entry_post_def bounded_files_def counters_agree_def written_bytes_def)

lemma state_frame_simps [simp]:
  "wlog (os_MkdirAll p s) = wlog s"
  by (simp add: os_MkdirAll_def)

lemma extract_entry_post:
  assumes "counters_agree s"
  shows "entry_post destDir [f] s (extract_entry cwd destDir s f)"
proof -
  define fpath where "fpath = Join [destDir, Name f]"
  define s1 where "s1 = OpenFile_trunc fpath (os_MkdirAll (Dir fpath) s)"
  have ca: "counters_agree s1"
    using assms by (simp add: counters_agree_def s1_def)
  have fl: "flen s1 fpath = 0"
    by (simp add: s1_def)
  obtain r s' where res: "copy_loop fpath (Name f) 0 s1 (zip_Open f) = (r, s')"
    by (cases "copy_loop fpath (Name f) 0 s1 (zip_Open f)")
  have cp: "copy_post fpath s1 (r, s')"
    using copy_loop_post [of 0 s1 fpath "Name f" "zip_Open f"] ca fl res by simp
  have "bounded_files s s'"
    unfolding bounded_files_def
  proof (intro allI impI)
    fix p c assume pc: "files s' p = Some c"
    show "files s p = Some c \<or> length c \<le> maxPerFileUncompressed"
    proof (cases "p = fpath")
      case True
      then have "flen s' fpath = length c" using pc by (simp add: flen_def)
      then show ?thesis using cp by (simp add: copy_post_def)
    next
      case False
      then have "files s' p = files s p" using cp by (simp add: copy_post_def s1_def)
      then show ?thesis using pc by simp
    qed
  qed
  then have copy: "entry_post destDir [f] s (copy_loop fpath (Name f) 0 s1 (zip_Open f))"
    using cp res by (simp add: copy_post_def entry_post_def fpath_def)
  show ?thesis
    unfolding extract_entry_def Let_def
    using copy assms
    by (auto simp: fpath_def s1_def intro!: entry_post_same split: option.splits)
qed

lemma extract_loop_post:
  assumes "counters_agree s"
  shows "entry_post destDir fs s (extract_loop cwd destDir s fs)"
  using assms
proof (induction fs arbitrary: s)
  case Nil
  then show ?case by (simp add: entry_post_same)
next
  case (Cons f fs)
  obtain r s1 where e: "extract_entry cwd destDir s f = (r, s1)"
    by (cases "extract_entry cwd destDir s f")
  have p1: "entry_post destDir [f] s (r, s1)"
    using extract_entry_post [OF Cons.prems, of destDir f cwd] e by simp
  show ?case
  proof (cases r)
    case (Some resp)
    then show ?thesis using e p1 by (auto simp: entry_post_def)
  next
    case None
    then have "counters_agree s1" using p1 by (simp add: entry_post_def)
    from Cons.IH [OF this] have "entry_post destDir fs s1 (extract_loop cwd destDir s1 fs)" .
    moreover have "bounded_files s s1" using p1 by (simp add: entry_post_def)
    ultimately show ?thesis using e None
      by (auto simp: entry_post_def bounded_files_def split: prod.splits) 
  qed
qed

lemma validate_abs_root:
  assumes "IsAbs destDir"
  shows "validateZipFilePath cwd filePath destDir = validateZipFilePath cwd' filePath destDir"
proof -
  from assms obtain rest where d: "destDir = CHR ''/'' # rest"
    by (cases destDir) (auto simp: IsAbs_def HasPrefix_def)
  have j: "Join [destDir, Clean filePath] = Clean (join_sep [destDir, Clean filePath])"
    by (simp add: Join_def d)
  have "IsAbs (Clean (join_sep [destDir, Clean filePath]))"
    by (simp add: d Clean_Cons IsAbs_def HasPrefix_def del: split_sep.simps)
  then show ?thesis
    using assms by (simp add: validateZipFilePath_def Abs_path_def j)
qed

lemma destDir_of_abs: "IsAbs (destDir_of gameId)"
  by (simp add: destDir_of_def Join_def Clean_Cons IsAbs_def HasPrefix_def del: split_sep.simps)

section \<open>Properties of the detector\<close>

lemma word_quot_gt:
  fixes uc cs :: "64 word"
  shows "(uc div cs > of_nat maxCompressionRatio) = (unat uc div unat cs > maxCompressionRatio)"
  by (simp add: word_less_nat_alt unat_div maxCompressionRatio_def)

lemma ratio_entry_facts:
  "\<not> exempt ratio_entry" "declared_uc ratio_entry = 201" "declared_cs ratio_entry = 2"
  by (simp_all add: exempt_def HasPrefix_def declared_uc_def declared_cs_def ratio_entry_def)

lemma bomb_ratio_entry: "bomb_entry 0 0 ratio_entry = Inr (1, 201)"
  by (simp add: bomb_entry_def ratio_entry_facts maxZipEntries_def maxTotalUncompressedBytes_def
      maxCompressionRatio_def maxPerFileUncompressed_def)

section \<open>Properties of the handler\<close>

lemma handler_accepted:
  assumes "accepted env r" "form_file r = Inr upload" "create_temp env = Inr tmp"
  shows "GameUploadHandler env r s =
     deferred_Remove tmp (handle_temp env tmp upload (s\<lparr>files := (files s)(tmp \<mapsto> [])\<rparr>))"
proof -
  from assms(1) obtain records where
    "Method r = ''POST''" "multipart_err r = None" "Authorization r \<noteq> []"
    "airtable env (sanitizeForAirtableFormula (token r)) = Inr records" "records \<noteq> 0"
    by (auto simp: accepted_def split: sum.splits)
  then show ?thesis
    using assms(2,3) unfolding GameUploadHandler_def Let_def token_def [symmetric]
    by simp
qed

lemma handler_extraction:
  assumes "reaches_extraction env r upload tmp zr gameId"
  shows "GameUploadHandler env r s =
     (case extract_loop (getwd env) (destDir_of gameId) (extraction_start tmp upload gameId s) zr of
        (Some resp, s') \<Rightarrow> (Some resp, os_Remove tmp s')
      | (None, s') \<Rightarrow>
          (Some (upload_ok gameId),
           os_Remove tmp (s'\<lparr>dispatched := dispatched s' @ [destDir_of gameId]\<rparr>)))"
proof -
  from assms have a: "accepted env r" "form_file r = Inr upload" "create_temp env = Inr tmp"
    and b: "copy_err env = None" "close_err env = None" "open_reader env = Inr zr"
      "new_uuid env = Inr gameId" "mkdir_dest_err env = None" "lolCheckForZipBomb zr = None"
    by (simp_all add: reaches_extraction_def)
  show ?thesis
    unfolding handler_accepted [OF a]
    by (simp add: handle_temp_def handle_archive_def b deferred_Remove_def Let_def
        extraction_start_def destDir_of_def split: prod.splits option.splits)
qed

lemma extract_loop_append:
  "extract_loop cwd destDir s (pre @ rest) =
     (case extract_loop cwd destDir s pre of
        (Some resp, s') \<Rightarrow> (Some resp, s')
      | (None, s') \<Rightarrow> extract_loop cwd destDir s' rest)"
  by (induction pre arbitrary: s) (auto split: prod.splits option.splits)

lemma extract_entry_exempt:
  "exempt f \<Longrightarrow> extract_entry cwd destDir s f = (None, s)"
  by (simp add: extract_entry_def exempt_def)

lemma extract_entry_bad_path:
  "\<not> exempt f \<Longrightarrow> \<not> validateZipFilePath cwd (Name f) destDir \<Longrightarrow>
   extract_entry cwd destDir s f =
     (Some (http_Error (''Invalid file path in zip: '' @ Name f) 400), s)"
  by (simp add: extract_entry_def exempt_def)

lemma extract_entry_bad_type:
  "\<not> exempt f \<Longrightarrow> validateZipFilePath cwd (Name f) destDir \<Longrightarrow>
   \<not> isAllowedFileType (Name f) \<Longrightarrow>
   extract_entry cwd destDir s f =
     (Some (http_Error (''File type not allowed: '' @ Name f) 400), s)"
  by (simp add: extract_entry_def exempt_def)

lemma accepted_ok: "accepted (env_ok zr) req_ok"
  by (simp add: accepted_def env_ok_def req_ok_def bearer_def)

lemma reaches_ok:
  "lolCheckForZipBomb zr = None \<Longrightarrow>
   reaches_extraction (env_ok zr) req_ok ''PK'' tmp_name zr game_id"
  using accepted_ok [of zr]
  by (simp add: reaches_extraction_def) (simp add: env_ok_def req_ok_def)

lemma game_dir_eq: "destDir_of game_id = game_dir"
  by code_simp

lemma getwd_ok: "getwd (env_ok zr) = Some ''/app''"
  by (simp add: env_ok_def)

lemma file_entry_sel [simp]:
  "Name (file_entry name content) = name"
  "ModeDir (file_entry name content) = False"
  "mkdir_err (file_entry name content) = None"
  "open_err (file_entry name content) = None"
  "create_err (file_entry name content) = None"
  "stream (file_entry name content) = [\<lparr>rdata = content, rerr = None, wfail = None\<rparr>]"
  by (simp_all add: file_entry_def)

lemma evil_facts:
  "\<not> exempt evil_entry"
  "\<not> validateZipFilePath (Some ''/app'') (Name evil_entry) game_dir"
  "Name evil_entry = ''../../evil.txt''"
  "lolCheckForZipBomb [evil_entry] = None"
proof -
  show "\<not> exempt evil_entry" by (simp add: evil_entry_def exempt_def HasPrefix_def)
  show "Name evil_entry = ''../../evil.txt''" by (simp add: evil_entry_def)
  have "\<not> validateZipFilePath (Some ''/app'') ''../../evil.txt'' game_dir" by code_simp
  then show "\<not> validateZipFilePath (Some ''/app'') (Name evil_entry) game_dir"
    by (simp add: evil_entry_def)
  show "lolCheckForZipBomb [evil_entry] = None"
    by (simp add: lolCheckForZipBomb_def bomb_entry_def exempt_def HasPrefix_def evil_entry_def
        file_entry_def declared_uc_def declared_cs_def maxZipEntries_def
        maxTotalUncompressedBytes_def maxCompressionRatio_def maxPerFileUncompressed_def)
qed

lemma handler_evil:
  "fst (GameUploadHandler (env_ok [evil_entry]) req_ok s0) =
     Some (http_Error ''Invalid file path in zip: ../../evil.txt'' 400)"
  unfolding handler_extraction [OF reaches_ok [OF evil_facts(4)]] game_dir_eq getwd_ok
  by (simp add: extract_entry_bad_path [OF evil_facts(1,2)] evil_facts(3))

lemma validation_error_simps [simp]:
  "is_validation_error (jsonValidationError status msg details)"
  "\<not> is_validation_error (http_Error msg code)"
  by (simp_all add: jsonValidationError_def http_Error_def)

lemma extract_loop_None_safe:
  "fst (extract_loop cwd destDir s zr) = None \<Longrightarrow> f \<in> set zr \<Longrightarrow> \<not> exempt f \<Longrightarrow>
   validateZipFilePath cwd (Name f) destDir"
proof (induction zr arbitrary: s)
  case Nil
  then show ?case by simp
next
  case (Cons g zr)
  obtain r s1 where e: "extract_entry cwd destDir s g = (r, s1)"
    by (cases "extract_entry cwd destDir s g")
  with Cons.prems(1) have r: "r = None" and rest: "fst (extract_loop cwd destDir s1 zr) = None"
    by (cases r; simp)+
  show ?case
  proof (cases "f = g")
    case True
    show ?thesis
    proof (rule ccontr)
      assume "\<not> validateZipFilePath cwd (Name f) destDir"
      with Cons.prems(3) True e r show False
        by (simp add: extract_entry_bad_path)
    qed
  next
    case False
    with Cons.prems(2) have "f \<in> set zr" by simp
    from Cons.IH [OF rest this Cons.prems(3)] show ?thesis .
  qed
qed

lemma bomb_entry_exempt:
  "exempt f \<Longrightarrow> bomb_entry entries totalUncompressed f = Inr (entries, totalUncompressed)"
  by (simp add: bomb_entry_def)

lemma macosx_evil_facts:
  "exempt macosx_evil_entry"
  "\<not> validateZipFilePath (Some ''/app'') (Name macosx_evil_entry) game_dir"
  "lolCheckForZipBomb [macosx_evil_entry] = None"
proof -
  have "HasPrefix ''__MACOSX/../../evil.txt'' ''__MACOSX/''" by code_simp
  then show e: "exempt macosx_evil_entry"
    by (simp add: exempt_def macosx_evil_entry_def)
  have "\<not> validateZipFilePath (Some ''/app'') ''__MACOSX/../../evil.txt'' game_dir" by code_simp
  then show "\<not> validateZipFilePath (Some ''/app'') (Name macosx_evil_entry) game_dir"
    by (simp add: macosx_evil_entry_def)
  show "lolCheckForZipBomb [macosx_evil_entry] = None"
    by (simp add: lolCheckForZipBomb_def bomb_entry_exempt [OF e])
qed

lemma handler_macosx_evil:
  "fst (GameUploadHandler (env_ok [macosx_evil_entry]) req_ok s0) = Some (upload_ok game_id)"
  unfolding handler_extraction [OF reaches_ok [OF macosx_evil_facts(3)]]
  by (simp add: extract_entry_exempt [OF macosx_evil_facts(1)])

lemma three_entries_facts:
  "lolCheckForZipBomb three_entries = None"
  "\<not> exempt (file_entry ''a.txt'' ''0123456789'')"
  "validateZipFilePath (Some ''/app'') (Name (file_entry ''a.txt'' ''0123456789'')) game_dir"
  "\<not> isAllowedFileType (Name (file_entry ''a.txt'' ''0123456789''))"
proof -
  show "lolCheckForZipBomb three_entries = None"
    by (simp add: lolCheckForZipBomb_def bomb_entry_def exempt_def HasPrefix_def three_entries_def
        file_entry_def dir_entry_def declared_uc_def declared_cs_def maxZipEntries_def
        maxTotalUncompressedBytes_def maxCompressionRatio_def maxPerFileUncompressed_def)
  show "\<not> exempt (file_entry ''a.txt'' ''0123456789'')"
    by (simp add: exempt_def HasPrefix_def)
  have "validateZipFilePath (Some ''/app'') ''a.txt'' game_dir" by code_simp
  then show "validateZipFilePath (Some ''/app'') (Name (file_entry ''a.txt'' ''0123456789'')) game_dir"
    by simp
  have "\<not> isAllowedFileType ''a.txt''" by code_simp
  then show "\<not> isAllowedFileType (Name (file_entry ''a.txt'' ''0123456789''))" by simp
qed

lemma handler_three_entries:
  "GameUploadHandler (env_ok three_entries) req_ok s0 =
     (Some (http_Error ''File type not allowed: a.txt'' 400),
      os_Remove tmp_name (extraction_start tmp_name ''PK'' game_id s0))"
  unfolding handler_extraction [OF reaches_ok [OF three_entries_facts(1)]] game_dir_eq getwd_ok
  by (simp add: three_entries_def extract_entry_bad_type [OF three_entries_facts(2,3,4)])

lemma handle_archive_exit:
  "handle_archive env zr s = (None, s') \<Longrightarrow> \<exists>e. new_uuid env = Inl e"
  by (auto simp: handle_archive_def Let_def split: sum.splits option.splits prod.splits)

lemma handle_temp_exit:
  "handle_temp env tmp upload s = (None, s') \<Longrightarrow> \<exists>e. new_uuid env = Inl e"
  by (auto simp: handle_temp_def Let_def dest: handle_archive_exit
           split: sum.splits option.splits prod.splits)

section \<open>Further properties of the extraction\<close>

lemma counters_agree_s0: "counters_agree s0"
  by (simp add: counters_agree_def written_bytes_def s0_def)


text \<open>
  Once the temporary upload file has been created, every path on which the handler
  returns, with whatever response, ends with that file removed. The handler fails to
  return on one path only, the failure of the identifier generator.
\<close>

lemma temp_file_removed_on_return:
  assumes "accepted env r" "form_file r = Inr upload" "create_temp env = Inr tmp"
  shows "case GameUploadHandler env r s of
           (Some resp, s') \<Rightarrow> files s' tmp = None
         | (None, s') \<Rightarrow> \<exists>e. new_uuid env = Inl e"
proof -
  obtain res s1 where h: "handle_temp env tmp upload (s\<lparr>files := (files s)(tmp \<mapsto> [])\<rparr>) = (res, s1)"
    by (cases "handle_temp env tmp upload (s\<lparr>files := (files s)(tmp \<mapsto> [])\<rparr>)")
  show ?thesis
    unfolding handler_accepted [OF assms] h
    using handle_temp_exit [of env tmp upload _ s1] h
    by (cases res) (auto simp: deferred_Remove_def)
qed


lemma temp_file_removed_example:
  "accepted (env_ok three_entries) req_ok \<and>
   form_file req_ok = Inr ''PK'' \<and>
   create_temp (env_ok three_entries) = Inr tmp_name \<and>
   fst (GameUploadHandler (env_ok three_entries) req_ok s0) \<noteq> None \<and>
   files (snd (GameUploadHandler (env_ok three_entries) req_ok s0)) tmp_name = None"
proof -
  have a: "form_file req_ok = Inr ''PK''" "create_temp (env_ok three_entries) = Inr tmp_name"
    by (simp_all add: req_ok_def env_ok_def)
  show ?thesis
    using temp_file_removed_on_return [OF accepted_ok a, of s0] accepted_ok [of three_entries] a
    by (simp add: handler_three_entries)
qed

lemma handler_uuid_fails:
  "GameUploadHandler (env_uuid_fails zr) req_ok s0 =
     (None, s0\<lparr>files := (files s0)(tmp_name \<mapsto> ''PK'')\<rparr>)"
proof -
  have a: "accepted (env_uuid_fails zr) req_ok"
    using accepted_ok [of zr] by (simp add: accepted_def env_uuid_fails_def env_ok_def)
  have b: "form_file req_ok = Inr ''PK''" "create_temp (env_uuid_fails zr) = Inr tmp_name"
    by (simp_all add: req_ok_def env_uuid_fails_def env_ok_def)
  show ?thesis
    unfolding handler_accepted [OF a b]
    by (simp add: handle_temp_def handle_archive_def deferred_Remove_def env_uuid_fails_def
        env_ok_def)
qed

section \<open>Entries as the archive reader delivers them\<close>








lemma small_entry_facts:
  "\<not> exempt small_entry"
  "validateZipFilePath (Some ''/app'') (Name small_entry) game_dir"
  "isAllowedFileType (Name small_entry)"
  "\<not> IsDir small_entry"
  "Name small_entry = ''a.zip''"
  "zip_Open small_entry = [\<lparr>rdata = ''0123456789'', rerr = None, wfail = None\<rparr>]"
  "mkdir_err small_entry = None" "open_err small_entry = None" "create_err small_entry = None"
  "lolCheckForZipBomb [small_entry] = None"
proof -
  show "\<not> exempt small_entry" by (simp add: exempt_def HasPrefix_def small_entry_def)
  have "validateZipFilePath (Some ''/app'') ''a.zip'' game_dir" by code_simp
  then show "validateZipFilePath (Some ''/app'') (Name small_entry) game_dir"
    by (simp add: small_entry_def)
  have "isAllowedFileType ''a.zip''" by code_simp
  then show "isAllowedFileType (Name small_entry)" by (simp add: small_entry_def)
  have "\<not> HasSuffix ''a.zip'' ''/''" by code_simp
  then show "\<not> IsDir small_entry" by (simp add: IsDir_def small_entry_def)
  show "zip_Open small_entry = [\<lparr>rdata = ''0123456789'', rerr = None, wfail = None\<rparr>]"
    by (simp add: zip_Open_def small_entry_def file_entry_def bufSize_def u64_add_def)
  show "lolCheckForZipBomb [small_entry] = None"
    by (simp add: lolCheckForZipBomb_def bomb_entry_def exempt_def HasPrefix_def small_entry_def
        file_entry_def declared_uc_def declared_cs_def maxZipEntries_def
        maxTotalUncompressedBytes_def maxCompressionRatio_def maxPerFileUncompressed_def)
qed (simp_all add: small_entry_def)

lemma extract_small_entry:
  "\<exists>s'. extract_loop (Some ''/app'') game_dir s0 [small_entry] = (None, s') \<and>
        totalWritten s' = 10 \<and> written_bytes s' = 10 \<and>
        files s' (Join [game_dir, Name small_entry]) = Some ''0123456789''"
proof -
  define fpath where "fpath = Join [game_dir, Name small_entry]"
  define s1 where "s1 = OpenFile_trunc fpath (os_MkdirAll (Dir fpath) s0)"
  define ev where "ev = \<lparr>rdata = ''0123456789'', rerr = None, wfail = None\<rparr>"
  define s2 where "s2 = file_Write fpath ''0123456789'' (s1\<lparr>totalWritten := length ''0123456789''\<rparr>)"
  have z: "totalWritten s1 = 0" "written_bytes s1 = 0" "files s1 fpath = Some []"
    by (simp_all add: s1_def s0_def written_bytes_def os_MkdirAll_def OpenFile_trunc_def)
  have e: "extract_entry (Some ''/app'') game_dir s0 small_entry =
      copy_loop fpath (Name small_entry) 0 s1 [ev]"
    using small_entry_facts(1-4)
    by (simp add: extract_entry_def exempt_def small_entry_facts(6-9) fpath_def s1_def Let_def
        ev_def del: copy_loop.simps)
  have w: "(0::nat) \<le> maxPerFileUncompressed" by simp
  have t: "totalWritten s1 \<le> maxTotalUncompressedBytes" by (simp add: z)
  have "copy_chunk fpath (Name small_entry) 0 s1 ev = Inr (10, s2)"
    unfolding copy_chunk_unfold [OF w t] Let_def
    by (simp add: ev_def bufSize_def z s2_def maxPerFileUncompressed_def
        maxTotalUncompressedBytes_def)
  then have "copy_loop fpath (Name small_entry) 0 s1 [ev] = (None, s2)"
    by (simp add: ev_def)
  then have "extract_loop (Some ''/app'') game_dir s0 [small_entry] = (None, s2)"
    by (simp add: e)
  moreover have "totalWritten s2 = 10" "written_bytes s2 = 10" "files s2 fpath = Some ''0123456789''"
    by (simp_all add: s2_def z)
  ultimately show ?thesis
    unfolding fpath_def [symmetric] by (intro exI [of _ s2]) simp
qed

lemma write_fail_entry_facts:
  "\<not> exempt write_fail_entry"
  "validateZipFilePath (Some ''/app'') (Name write_fail_entry) game_dir"
  "isAllowedFileType (Name write_fail_entry)"
  "\<not> IsDir write_fail_entry"
  "Name write_fail_entry = ''a.zip''"
  "zip_Open write_fail_entry = [failing_write]"
  "mkdir_err write_fail_entry = None" "open_err write_fail_entry = None"
  "create_err write_fail_entry = None"
  "lolCheckForZipBomb [write_fail_entry] = None"
proof -
  show "\<not> exempt write_fail_entry"
    using small_entry_facts(1) by (simp add: exempt_def write_fail_entry_def small_entry_def)
  show "validateZipFilePath (Some ''/app'') (Name write_fail_entry) game_dir"
    using small_entry_facts(2) by (simp add: write_fail_entry_def small_entry_def)
  show "isAllowedFileType (Name write_fail_entry)"
    using small_entry_facts(3) by (simp add: write_fail_entry_def small_entry_def)
  show "\<not> IsDir write_fail_entry"
    using small_entry_facts(4) by (simp add: IsDir_def write_fail_entry_def small_entry_def)
  show "zip_Open write_fail_entry = [failing_write]"
    by (simp add: zip_Open_def write_fail_entry_def file_entry_def failing_write_def bufSize_def
        u64_add_def)
  show "lolCheckForZipBomb [write_fail_entry] = None"
    by (simp add: lolCheckForZipBomb_def bomb_entry_def exempt_def HasPrefix_def
        write_fail_entry_def file_entry_def declared_uc_def declared_cs_def maxZipEntries_def
        maxTotalUncompressedBytes_def maxCompressionRatio_def maxPerFileUncompressed_def)
qed (simp_all add: write_fail_entry_def)

lemma copy_chunk_failing_write:
  assumes "totalWritten s \<le> 1000"
  shows "copy_chunk fpath name 0 s failing_write =
     Inl (http_Error ''Failed to write file: no space left on device'' 500,
          file_Write fpath (take 4 ''0123456789'')
            (s\<lparr>totalWritten := totalWritten s + length ''0123456789''\<rparr>))"
proof -
  have w: "(0::nat) \<le> maxPerFileUncompressed" by simp
  have t: "totalWritten s \<le> maxTotalUncompressedBytes"
    using assms by (simp add: maxTotalUncompressedBytes_def)
  show ?thesis
    unfolding copy_chunk_unfold [OF w t] Let_def
    using assms
    by (simp add: failing_write_def bufSize_def maxPerFileUncompressed_def
        maxTotalUncompressedBytes_def)
qed

lemma extract_write_fail_entry:
  "\<exists>s'. extract_loop (Some ''/app'') game_dir s0 [write_fail_entry] =
          (Some (http_Error ''Failed to write file: no space left on device'' 500), s') \<and>
        totalWritten s' = 10 \<and> written_bytes s' = 4"
proof -
  define fpath where "fpath = Join [game_dir, Name write_fail_entry]"
  define s1 where "s1 = OpenFile_trunc fpath (os_MkdirAll (Dir fpath) s0)"
  define s2 where "s2 = file_Write fpath (take 4 ''0123456789'')
      (s1\<lparr>totalWritten := totalWritten s1 + length ''0123456789''\<rparr>)"
  have z: "totalWritten s1 = 0" "written_bytes s1 = 0"
    by (simp_all add: s1_def s0_def written_bytes_def os_MkdirAll_def OpenFile_trunc_def)
  have e: "extract_entry (Some ''/app'') game_dir s0 write_fail_entry =
      copy_loop fpath (Name write_fail_entry) 0 s1 [failing_write]"
    using write_fail_entry_facts(1-4)
    by (simp add: extract_entry_def exempt_def write_fail_entry_facts(6-9) fpath_def s1_def Let_def
        del: copy_loop.simps)
  have "copy_chunk fpath (Name write_fail_entry) 0 s1 failing_write =
      Inl (http_Error ''Failed to write file: no space left on device'' 500, s2)"
    unfolding s2_def by (rule copy_chunk_failing_write) (simp add: z)
  then have "copy_loop fpath (Name write_fail_entry) 0 s1 [failing_write] =
      (Some (http_Error ''Failed to write file: no space left on device'' 500), s2)"
    by simp
  then have "extract_loop (Some ''/app'') game_dir s0 [write_fail_entry] =
      (Some (http_Error ''Failed to write file: no space left on device'' 500), s2)"
    by (simp add: e)
  moreover have "totalWritten s2 = 10" "written_bytes s2 = 4"
    by (simp_all add: s2_def z)
  ultimately show ?thesis by (intro exI [of _ s2]) simp
qed

section \<open>The detector's loop and the validation body\<close>

lemma bomb_loop_Some_iff:
  "bomb_loop entries totalUncompressed zr = Some err \<longleftrightarrow>
     (\<exists>pre f post n t. zr = pre @ f # post \<and>
        bomb_pass entries totalUncompressed pre = Some (n, t) \<and> bomb_entry n t f = Inl err)"
proof (induction zr arbitrary: entries totalUncompressed)
  case Nil
  then show ?case by simp
next
  case (Cons g zr)
  show ?case
  proof (cases "bomb_entry entries totalUncompressed g")
    case (Inl e)
    show ?thesis
    proof
      assume "bomb_loop entries totalUncompressed (g # zr) = Some err"
      with Inl have "e = err" by simp
      with Inl have "g # zr = [] @ g # zr \<and>
          bomb_pass entries totalUncompressed [] = Some (entries, totalUncompressed) \<and>
          bomb_entry entries totalUncompressed g = Inl err" by simp
      then show "\<exists>pre f post n t. g # zr = pre @ f # post \<and>
          bomb_pass entries totalUncompressed pre = Some (n, t) \<and> bomb_entry n t f = Inl err"
        by blast
    next
      assume "\<exists>pre f post n t. g # zr = pre @ f # post \<and>
          bomb_pass entries totalUncompressed pre = Some (n, t) \<and> bomb_entry n t f = Inl err"
      then obtain pre f post n t where h: "g # zr = pre @ f # post"
        "bomb_pass entries totalUncompressed pre = Some (n, t)" "bomb_entry n t f = Inl err"
        by blast
      show "bomb_loop entries totalUncompressed (g # zr) = Some err"
      proof (cases pre)
        case Nil
        with h Inl show ?thesis by simp
      next
        case (Cons a pre')
        with h(1) have "a = g" by simp
        with Cons h(2) Inl show ?thesis by simp
      qed
    qed
  next
    case (Inr nt)
    obtain n1 t1 where nt: "nt = (n1, t1)" by (cases nt)
    have loop: "bomb_loop entries totalUncompressed (g # zr) = bomb_loop n1 t1 zr"
      using Inr nt by simp
    show ?thesis
    proof
      assume "bomb_loop entries totalUncompressed (g # zr) = Some err"
      then have "bomb_loop n1 t1 zr = Some err" using loop by simp
      then obtain pre f post n t where h: "zr = pre @ f # post"
        "bomb_pass n1 t1 pre = Some (n, t)" "bomb_entry n t f = Inl err"
        using Cons.IH [of n1 t1] by blast
      then have "g # zr = (g # pre) @ f # post \<and>
          bomb_pass entries totalUncompressed (g # pre) = Some (n, t) \<and>
          bomb_entry n t f = Inl err"
        using Inr nt by simp
      then show "\<exists>pre f post n t. g # zr = pre @ f # post \<and>
          bomb_pass entries totalUncompressed pre = Some (n, t) \<and> bomb_entry n t f = Inl err"
        by blast
    next
      assume "\<exists>pre f post n t. g # zr = pre @ f # post \<and>
          bomb_pass entries totalUncompressed pre = Some (n, t) \<and> bomb_entry n t f = Inl err"
      then obtain pre f post n t where h: "g # zr = pre @ f # post"
        "bomb_pass entries totalUncompressed pre = Some (n, t)" "bomb_entry n t f = Inl err"
        by blast
      show "bomb_loop entries totalUncompressed (g # zr) = Some err"
      proof (cases pre)
        case Nil
        with h Inr show ?thesis by simp
      next
        case (Cons a pre')
        with h(1) have a: "a = g" "zr = pre' @ f # post" by simp_all
        with Cons h(2) Inr nt have "bomb_pass n1 t1 pre' = Some (n, t)" by simp
        with a(2) h(3) have "bomb_loop n1 t1 zr = Some err"
          using Cons.IH [of n1 t1] by blast
        then show ?thesis using loop by simp
      qed
    qed
  qed
qed

lemma copy_chunk_validation:
  "copy_chunk fpath name writtenForFile s ev = Inl (resp, s') \<Longrightarrow> is_validation_error resp \<Longrightarrow>
   is_size_rejection resp"
  by (auto simp: copy_chunk_def Let_def split: if_splits option.splits)

lemma copy_loop_validation:
  "copy_loop fpath name writtenForFile s evs = (Some resp, s') \<Longrightarrow> is_validation_error resp \<Longrightarrow>
   is_size_rejection resp"
proof (induction evs arbitrary: writtenForFile s)
  case Nil
  then show ?case by simp
next
  case (Cons ev evs)
  show ?case
  proof (cases "copy_chunk fpath name writtenForFile s ev")
    case (Inl rs)
    obtain r1 s1 where "rs = (r1, s1)" by (cases rs)
    with Inl Cons.prems show ?thesis
      using copy_chunk_validation [of fpath name writtenForFile s ev r1 s1] by simp
  next
    case (Inr ws)
    obtain w1 s1 where ws: "ws = (w1, s1)" by (cases ws)
    show ?thesis
    proof (cases "rerr ev")
      case None
      with Inr ws Cons.prems(1) have "copy_loop fpath name w1 s1 evs = (Some resp, s')" by simp
      from Cons.IH [OF this Cons.prems(2)] show ?thesis .
    next
      case (Some e)
      with Inr ws Cons.prems show ?thesis by (cases e) auto
    qed
  qed
qed

lemma extract_entry_validation:
  "extract_entry cwd destDir s f = (Some resp, s') \<Longrightarrow> is_validation_error resp \<Longrightarrow>
   is_size_rejection resp"
  by (auto simp: extract_entry_def Let_def dest: copy_loop_validation
           split: if_splits option.splits)

lemma extract_loop_validation:
  "extract_loop cwd destDir s zr = (Some resp, s') \<Longrightarrow> is_validation_error resp \<Longrightarrow>
   is_size_rejection resp"
proof (induction zr arbitrary: s)
  case Nil
  then show ?case by simp
next
  case (Cons f zr)
  obtain r s1 where e: "extract_entry cwd destDir s f = (r, s1)"
    by (cases "extract_entry cwd destDir s f")
  show ?case
  proof (cases r)
    case None
    with e Cons.prems(1) have "extract_loop cwd destDir s1 zr = (Some resp, s')" by simp
    from Cons.IH [OF this Cons.prems(2)] show ?thesis .
  next
    case (Some r1)
    with e Cons.prems(1) have "extract_entry cwd destDir s f = (Some resp, s')" by simp
    from extract_entry_validation [OF this Cons.prems(2)] show ?thesis .
  qed
qed

lemma upload_ok_not_validation [simp]: "\<not> is_validation_error (upload_ok gameId)"
  by (simp add: upload_ok_def)

lemma handle_archive_validation:
  assumes "handle_archive env zr s = (Some resp, s')" "is_validation_error resp"
  shows "(\<exists>e. lolCheckForZipBomb zr = Some e \<and>
              resp = jsonValidationError 400 ''Zip validation failed'' e) \<or>
         is_size_rejection resp"
  using assms
  by (auto simp: handle_archive_def Let_def dest: extract_loop_validation
           split: sum.splits option.splits prod.splits)

lemma handle_temp_validation:
  assumes "handle_temp env tmp upload s = (Some resp, s')" "is_validation_error resp"
  shows "(\<exists>zr e. open_reader env = Inr zr \<and> lolCheckForZipBomb zr = Some e \<and>
              resp = jsonValidationError 400 ''Zip validation failed'' e) \<or>
         is_size_rejection resp"
  using assms
  by (auto simp: handle_temp_def Let_def dest: handle_archive_validation
           split: sum.splits option.splits prod.splits)

lemma handler_validation:
  assumes "GameUploadHandler env r s = (Some resp, s')" "is_validation_error resp"
  shows "(\<exists>zr e. open_reader env = Inr zr \<and> lolCheckForZipBomb zr = Some e \<and>
              resp = jsonValidationError 400 ''Zip validation failed'' e) \<or>
         is_size_rejection resp"
proof -
  have "\<exists>tmp upload s1 s2. handle_temp env tmp upload s1 = (Some resp, s2)"
    using assms
    by (auto simp: GameUploadHandler_def Let_def deferred_Remove_def
             split: if_splits sum.splits option.splits prod.splits)
  then show ?thesis using handle_temp_validation assms(2) by blast
qed

lemma reaches_extraction_detector:
  "reaches_extraction env r upload tmp zr gameId \<longleftrightarrow>
     reaches_detector env r upload tmp zr gameId \<and> lolCheckForZipBomb zr = None"
  by (auto simp: reaches_extraction_def reaches_detector_def)

lemma handler_detector_rejects:
  assumes "reaches_detector env r upload tmp zr gameId" "lolCheckForZipBomb zr = Some e"
  shows "fst (GameUploadHandler env r s) =
           Some (jsonValidationError 400 ''Zip validation failed'' e)"
proof -
  from assms(1) have a: "accepted env r" "form_file r = Inr upload" "create_temp env = Inr tmp"
    and b: "copy_err env = None" "close_err env = None" "open_reader env = Inr zr"
      "new_uuid env = Inr gameId" "mkdir_dest_err env = None"
    by (simp_all add: reaches_detector_def)
  show ?thesis
    unfolding handler_accepted [OF a]
    by (simp add: handle_temp_def handle_archive_def b assms(2) deferred_Remove_def Let_def)
qed

lemma reaches_detector_ok: "reaches_detector (env_ok zr) req_ok ''PK'' tmp_name zr game_id"
  using accepted_ok [of zr]
  by (simp add: reaches_detector_def) (simp add: env_ok_def req_ok_def)

lemma over_ratio_facts:
  "\<not> exempt over_ratio_entry" "declared_uc over_ratio_entry = 202"
  "declared_cs over_ratio_entry = 2"
  by (simp_all add: exempt_def HasPrefix_def declared_uc_def declared_cs_def over_ratio_entry_def
      ratio_entry_def)

lemma bomb_over_ratio_entry:
  "bomb_entry 0 0 over_ratio_entry = Inl ''excessive compression ratio detected''"
  "bomb_entry 1 201 over_ratio_entry = Inl ''excessive compression ratio detected''"
  by (simp_all add: bomb_entry_def over_ratio_facts maxZipEntries_def
      maxTotalUncompressedBytes_def maxCompressionRatio_def maxPerFileUncompressed_def)

lemma detector_over_ratio:
  "lolCheckForZipBomb [over_ratio_entry] = Some ''excessive compression ratio detected''"
  by (simp add: lolCheckForZipBomb_def bomb_over_ratio_entry)

lemma copy_chunk_write_failure:
  assumes "writtenForFile \<le> maxPerFileUncompressed" "totalWritten s \<le> maxTotalUncompressedBytes"
    and "wfail ev = Some (k, msg)"
    and "copy_chunk fpath name writtenForFile s ev =
           Inl (http_Error (''Failed to write file: '' @ msg) 500, s')"
  shows "totalWritten s' = totalWritten s + length (take bufSize (rdata ev)) \<and>
         written_bytes s' = written_bytes s + min k (length (take bufSize (rdata ev)))"
  using assms(3,4) unfolding copy_chunk_unfold [OF assms(1,2)] Let_def
  by (auto simp: jsonValidationError_def http_Error_def split: if_splits)

section \<open>The claims\<close>

text \<open>
  C1. The upload of the three-entry archive (\<^verbatim>\<open>a.txt\<close> of 10 bytes, \<^verbatim>\<open>b/c.txt\<close> of 20
  bytes, the directory \<^verbatim>\<open>b/\<close>) with a valid token is answered with 400 and the plain
  text \<^verbatim>\<open>File type not allowed: a.txt\<close>, not with the success body, and neither file is in
  the destination directory afterwards: the allow-list check is applied to the name of
  each entry inside the archive.
\<close>

theorem scenario_upload_rejected:
  "fst (GameUploadHandler (env_ok three_entries) req_ok s0) =
     Some (Plain 400 (''File type not allowed: a.txt'' @ [CHR 0x0A])) \<and>
   fst (GameUploadHandler (env_ok three_entries) req_ok s0) \<noteq> Some (upload_ok game_id) \<and>
   files (snd (GameUploadHandler (env_ok three_entries) req_ok s0)) (game_dir @ ''/a.txt'') = None \<and>
   files (snd (GameUploadHandler (env_ok three_entries) req_ok s0)) (game_dir @ ''/b/c.txt'') = None"
  unfolding handler_three_entries
  by (simp add: http_Error_def upload_ok_def extraction_start_def s0_def)

text \<open>
  C2, as amended. An entry whose name begins with \<^verbatim>\<open>__MACOSX/\<close> is skipped by the
  extractor as it is by the detector: nothing is checked, created or written for it and
  the counters of the detector do not move. For every other entry the path check comes
  first, and its failure ends the extraction with the state untouched. So when the
  extraction loop runs to its end, every entry that is not exempt has passed the path
  check.
\<close>

theorem exemption_covers_extractor:
  "(exempt f \<longrightarrow>
      extract_entry cwd destDir s f = (None, s) \<and>
      bomb_entry entries totalUncompressed f = Inr (entries, totalUncompressed)) \<and>
   (\<not> exempt f \<and> \<not> validateZipFilePath cwd (Name f) destDir \<longrightarrow>
      extract_entry cwd destDir s f =
        (Some (http_Error (''Invalid file path in zip: '' @ Name f) 400), s)) \<and>
   (fst (extract_loop cwd destDir s zr) = None \<longrightarrow>
      (\<forall>g\<in>set zr. \<not> exempt g \<longrightarrow> validateZipFilePath cwd (Name g) destDir))"
  using extract_loop_None_safe [of cwd destDir s zr]
  by (auto simp: extract_entry_exempt bomb_entry_exempt extract_entry_bad_path)

theorem exemption_covers_extractor_witness:
  "exempt macosx_evil_entry \<and>
   extract_entry (Some ''/app'') game_dir s0 macosx_evil_entry = (None, s0) \<and>
   bomb_entry 0 0 macosx_evil_entry = Inr (0, 0) \<and>
   \<not> exempt evil_entry \<and>
   \<not> validateZipFilePath (Some ''/app'') (Name evil_entry) game_dir \<and>
   extract_entry (Some ''/app'') game_dir s0 evil_entry =
     (Some (http_Error (''Invalid file path in zip: '' @ Name evil_entry) 400), s0) \<and>
   fst (extract_loop (Some ''/app'') game_dir s0 [macosx_evil_entry]) = None"
proof -
  have l: "fst (extract_loop (Some ''/app'') game_dir s0 [macosx_evil_entry]) = None"
    by (simp add: extract_entry_exempt [OF macosx_evil_facts(1)])
  show ?thesis
    using exemption_covers_extractor [of macosx_evil_entry "Some ''/app''" game_dir s0 0 0
        "[macosx_evil_entry]"]
      exemption_covers_extractor [of evil_entry "Some ''/app''" game_dir s0 0 0
        "[macosx_evil_entry]"]
      macosx_evil_facts(1) evil_facts(1,2) l
    by simp
qed

text \<open>
  C2 as stated fails: the entry \<^verbatim>\<open>__MACOSX/../../evil.txt\<close> does not pass the path check
  against the destination, and the extractor skips it and the upload succeeds.
\<close>

theorem exempt_entry_not_path_checked:
  "\<not> validateZipFilePath (getwd (env_ok [macosx_evil_entry])) (Name macosx_evil_entry)
       (destDir_of game_id) \<and>
   fst (extract_loop (getwd (env_ok [macosx_evil_entry])) (destDir_of game_id) s0
          [macosx_evil_entry]) = None \<and>
   fst (GameUploadHandler (env_ok [macosx_evil_entry]) req_ok s0) = Some (upload_ok game_id)"
  using macosx_evil_facts(2) handler_macosx_evil
  by (simp add: getwd_ok game_dir_eq extract_entry_exempt [OF macosx_evil_facts(1)])

text \<open>
  C3, as amended. At the head of the copy loop, and so whenever an entry or the whole
  archive has been extracted without a response, the counter \<^verbatim>\<open>totalWritten\<close> equals the
  sum of the lengths of the chunks written so far, whatever sizes the archive declares.
  The counter is advanced before the budget checks and the write, so it is never behind
  the bytes written; when a write fails, the counter has the whole chunk and the disk has
  the bytes that the write got through.
\<close>

theorem counter_tracks_written_chunks:
  assumes "counters_agree s"
  shows "(case extract_loop cwd destDir s zr of
            (r, s') \<Rightarrow>
              written_bytes s' \<le> totalWritten s' \<and>
              (r = None \<longrightarrow> totalWritten s' = written_bytes s')) \<and>
         (writtenForFile \<le> maxPerFileUncompressed \<and> flen s fpath \<le> writtenForFile \<longrightarrow>
            (case copy_loop fpath name writtenForFile s evs of
               (r, s') \<Rightarrow> r = None \<longrightarrow> totalWritten s' = written_bytes s')) \<and>
         (writtenForFile \<le> maxPerFileUncompressed \<and> wfail ev = Some (k, msg) \<and>
          copy_chunk fpath name writtenForFile s ev =
            Inl (http_Error (''Failed to write file: '' @ msg) 500, s'') \<longrightarrow>
            totalWritten s'' = totalWritten s + length (take bufSize (rdata ev)) \<and>
            written_bytes s'' = written_bytes s + min k (length (take bufSize (rdata ev))))"
proof (intro conjI impI)
  show "case extract_loop cwd destDir s zr of
            (r, s') \<Rightarrow>
              written_bytes s' \<le> totalWritten s' \<and>
              (r = None \<longrightarrow> totalWritten s' = written_bytes s')"
    using extract_loop_post [OF assms, of destDir zr cwd]
    by (auto simp: entry_post_def counters_agree_def split: prod.splits)
  show "case copy_loop fpath name writtenForFile s evs of
               (r, s') \<Rightarrow> r = None \<longrightarrow> totalWritten s' = written_bytes s'"
    if "writtenForFile \<le> maxPerFileUncompressed \<and> flen s fpath \<le> writtenForFile"
    using copy_loop_post [of writtenForFile s fpath name evs] that assms
    by (auto simp: copy_post_def counters_agree_def split: prod.splits)
  assume h: "writtenForFile \<le> maxPerFileUncompressed \<and> wfail ev = Some (k, msg) \<and>
          copy_chunk fpath name writtenForFile s ev =
            Inl (http_Error (''Failed to write file: '' @ msg) 500, s'')"
  from assms have t: "totalWritten s \<le> maxTotalUncompressedBytes"
    by (simp add: counters_agree_def)
  from h t copy_chunk_write_failure [of writtenForFile s ev k msg fpath name s'']
  show "totalWritten s'' = totalWritten s + length (take bufSize (rdata ev))"
    and "written_bytes s'' = written_bytes s + min k (length (take bufSize (rdata ev)))"
    by simp_all
qed

theorem counter_tracks_written_chunks_witness:
  "counters_agree s0 \<and>
   lolCheckForZipBomb [small_entry] = None \<and>
   fst (extract_loop (Some ''/app'') game_dir s0 [small_entry]) = None \<and>
   totalWritten (snd (extract_loop (Some ''/app'') game_dir s0 [small_entry])) = 10 \<and>
   written_bytes (snd (extract_loop (Some ''/app'') game_dir s0 [small_entry])) = 10 \<and>
   wfail failing_write = Some (4, ''no space left on device'') \<and>
   fst (extract_loop (Some ''/app'') game_dir s0 [write_fail_entry]) =
     Some (http_Error ''Failed to write file: no space left on device'' 500) \<and>
   written_bytes (snd (extract_loop (Some ''/app'') game_dir s0 [write_fail_entry]))
     \<le> totalWritten (snd (extract_loop (Some ''/app'') game_dir s0 [write_fail_entry])) \<and>
   (case copy_chunk ''/games/x/a.zip'' ''a.zip'' 0 s0 failing_write of
      Inl (resp, s') \<Rightarrow> totalWritten s' = 10 \<and> written_bytes s' = 4
    | Inr ws \<Rightarrow> False) \<and>
   flen s0 ''/games/x/a.zip'' \<le> 0 \<and>
   (case copy_loop ''/games/x/a.zip'' ''a.zip'' 0 s0 (zip_Open small_entry) of
      (r, s') \<Rightarrow> r = None \<longrightarrow> totalWritten s' = written_bytes s')"
proof -
  obtain s' where s': "extract_loop (Some ''/app'') game_dir s0 [small_entry] = (None, s')"
    "totalWritten s' = 10"
    using extract_small_entry by blast
  obtain s'' where s'': "extract_loop (Some ''/app'') game_dir s0 [write_fail_entry] =
      (Some (http_Error ''Failed to write file: no space left on device'' 500), s'')"
    using extract_write_fail_entry by blast
  have z: "totalWritten s0 \<le> 1000" "totalWritten s0 = 0" "written_bytes s0 = 0"
    by (simp_all add: s0_def written_bytes_def)
  have wf: "wfail failing_write = Some (4, ''no space left on device'')"
    "length (take bufSize (rdata failing_write)) = 10"
    by (simp_all add: failing_write_def bufSize_def)
  note cc = copy_chunk_failing_write [OF z(1), of "''/games/x/a.zip''" "''a.zip''"]
  have w: "(0::nat) \<le> maxPerFileUncompressed" by simp
  have "totalWritten (file_Write ''/games/x/a.zip'' (take 4 ''0123456789'')
            (s0\<lparr>totalWritten := totalWritten s0 + length ''0123456789''\<rparr>)) = 10 \<and>
        written_bytes (file_Write ''/games/x/a.zip'' (take 4 ''0123456789'')
            (s0\<lparr>totalWritten := totalWritten s0 + length ''0123456789''\<rparr>)) = 4"
    using counter_tracks_written_chunks [OF counters_agree_s0, where writtenForFile = 0
        and ev = failing_write and k = 4 and msg = "''no space left on device''"
        and fpath = "''/games/x/a.zip''" and name = "''a.zip''"
        and s'' = "file_Write ''/games/x/a.zip'' (take 4 ''0123456789'')
            (s0\<lparr>totalWritten := totalWritten s0 + length ''0123456789''\<rparr>)"]
      cc wf z(2,3)
    by simp
  then have chunk: "case copy_chunk ''/games/x/a.zip'' ''a.zip'' 0 s0 failing_write of
      Inl (resp, s') \<Rightarrow> totalWritten s' = 10 \<and> written_bytes s' = 4
    | Inr ws \<Rightarrow> False"
    unfolding cc by simp
  have fl: "flen s0 ''/games/x/a.zip'' \<le> 0"
    by (simp add: flen_def s0_def)
  have loop: "case copy_loop ''/games/x/a.zip'' ''a.zip'' 0 s0 (zip_Open small_entry) of
      (r, s') \<Rightarrow> r = None \<longrightarrow> totalWritten s' = written_bytes s'"
    using counter_tracks_written_chunks [OF counters_agree_s0, where writtenForFile = 0
        and fpath = "''/games/x/a.zip''" and name = "''a.zip''"
        and evs = "zip_Open small_entry"] fl
    by simp
  show ?thesis
    using counter_tracks_written_chunks [OF counters_agree_s0, where cwd = "Some ''/app''"
        and destDir = game_dir and zr = "[small_entry]"]
      counter_tracks_written_chunks [OF counters_agree_s0, where cwd = "Some ''/app''"
        and destDir = game_dir and zr = "[write_fail_entry]"]
      counters_agree_s0 s' s'' small_entry_facts(10) wf(1) chunk fl loop
    by simp
qed

text \<open>
  C3 as stated fails: for an honest entry of 10 bytes, which the detector admits and
  whose write fails after 4 bytes, the extraction ends with the counter at 10 and 4 bytes
  written.
\<close>

theorem counter_ahead_after_failed_write:
  "lolCheckForZipBomb [write_fail_entry] = None \<and>
   fst (extract_loop (Some ''/app'') game_dir s0 [write_fail_entry]) =
     Some (http_Error ''Failed to write file: no space left on device'' 500) \<and>
   totalWritten (snd (extract_loop (Some ''/app'') game_dir s0 [write_fail_entry])) = 10 \<and>
   written_bytes (snd (extract_loop (Some ''/app'') game_dir s0 [write_fail_entry])) = 4"
  using extract_write_fail_entry write_fail_entry_facts(10) by auto

text \<open>
  C4, as amended. When the request gets as far as the extraction loop, the entries before
  \<open>f\<close> are extracted without a response, and \<open>f\<close> is not exempt and fails the path
  check, the handler responds 400 through \<^verbatim>\<open>http.Error\<close>: a plain-text body, the message
  \<^verbatim>\<open>Invalid file path in zip: \<close> followed by the entry's name and a newline, and not the
  structured validation-error body. That body, with status 400 and the detector's reason
  as its details, is what the handler sends when the detector rejects the archive; a
  response of that shape comes from the detector or from one of the two byte-budget
  checks of the copy loop, and from no other place.
\<close>

theorem validation_body_and_path_rejection:
  "(reaches_extraction env r upload tmp (pre @ f # post) gameId \<and>
    fst (extract_loop (getwd env) (destDir_of gameId)
           (extraction_start tmp upload gameId s) pre) = None \<and>
    \<not> exempt f \<and>
    \<not> validateZipFilePath (getwd env) (Name f) (destDir_of gameId) \<longrightarrow>
      fst (GameUploadHandler env r s) =
        Some (http_Error (''Invalid file path in zip: '' @ Name f) 400) \<and>
      http_Error (''Invalid file path in zip: '' @ Name f) 400 =
        Plain 400 (''Invalid file path in zip: '' @ Name f @ [CHR 0x0A]) \<and>
      \<not> is_validation_error (http_Error (''Invalid file path in zip: '' @ Name f) 400)) \<and>
   (reaches_detector env' r' upload' tmp' zr gameId' \<and> lolCheckForZipBomb zr = Some e \<longrightarrow>
      fst (GameUploadHandler env' r' s) =
        Some (jsonValidationError 400 ''Zip validation failed'' e) \<and>
      jsonValidationError 400 ''Zip validation failed'' e =
        Json 400 [(''details'', JString e), (''error'', JString ''Zip validation failed''),
                  (''validationError'', JBool True)] \<and>
      is_validation_error (jsonValidationError 400 ''Zip validation failed'' e)) \<and>
   (GameUploadHandler env'' r'' s = (Some resp, s') \<and> is_validation_error resp \<longrightarrow>
      (\<exists>zr e. open_reader env'' = Inr zr \<and> lolCheckForZipBomb zr = Some e \<and>
              resp = jsonValidationError 400 ''Zip validation failed'' e) \<or>
      is_size_rejection resp)"
proof (intro conjI impI)
  assume a: "reaches_extraction env r upload tmp (pre @ f # post) gameId \<and>
    fst (extract_loop (getwd env) (destDir_of gameId)
           (extraction_start tmp upload gameId s) pre) = None \<and>
    \<not> exempt f \<and>
    \<not> validateZipFilePath (getwd env) (Name f) (destDir_of gameId)"
  then obtain s1 where pre: "extract_loop (getwd env) (destDir_of gameId)
      (extraction_start tmp upload gameId s) pre = (None, s1)"
    by (cases "extract_loop (getwd env) (destDir_of gameId) (extraction_start tmp upload gameId s) pre")
      simp
  from a have bad: "\<not> exempt f" "\<not> validateZipFilePath (getwd env) (Name f) (destDir_of gameId)"
    and reach: "reaches_extraction env r upload tmp (pre @ f # post) gameId"
    by simp_all
  have "extract_loop (getwd env) (destDir_of gameId) (extraction_start tmp upload gameId s)
      (pre @ f # post) = (Some (http_Error (''Invalid file path in zip: '' @ Name f) 400), s1)"
    by (simp add: extract_loop_append pre extract_entry_bad_path [OF bad])
  then show "fst (GameUploadHandler env r s) =
        Some (http_Error (''Invalid file path in zip: '' @ Name f) 400)"
    unfolding handler_extraction [OF reach] by simp
  show "http_Error (''Invalid file path in zip: '' @ Name f) 400 =
        Plain 400 (''Invalid file path in zip: '' @ Name f @ [CHR 0x0A])"
    by (simp add: http_Error_def)
  show "\<not> is_validation_error (http_Error (''Invalid file path in zip: '' @ Name f) 400)"
    by simp
next
  assume b: "reaches_detector env' r' upload' tmp' zr gameId' \<and> lolCheckForZipBomb zr = Some e"
  then show "fst (GameUploadHandler env' r' s) =
        Some (jsonValidationError 400 ''Zip validation failed'' e)"
    using handler_detector_rejects [of env' r' upload' tmp' zr gameId' e s] by simp
  show "jsonValidationError 400 ''Zip validation failed'' e =
        Json 400 [(''details'', JString e), (''error'', JString ''Zip validation failed''),
                  (''validationError'', JBool True)]"
    by (simp add: jsonValidationError_def)
  show "is_validation_error (jsonValidationError 400 ''Zip validation failed'' e)"
    by simp
next
  assume "GameUploadHandler env'' r'' s = (Some resp, s') \<and> is_validation_error resp"
  then show "(\<exists>zr e. open_reader env'' = Inr zr \<and> lolCheckForZipBomb zr = Some e \<and>
              resp = jsonValidationError 400 ''Zip validation failed'' e) \<or>
      is_size_rejection resp"
    using handler_validation [of env'' r'' s resp s'] by simp
qed

theorem validation_body_and_path_rejection_witness:
  "reaches_extraction (env_ok ([] @ evil_entry # [])) req_ok ''PK'' tmp_name ([] @ evil_entry # []) game_id \<and>
   \<not> exempt evil_entry \<and>
   \<not> validateZipFilePath (getwd (env_ok [evil_entry])) (Name evil_entry) (destDir_of game_id) \<and>
   fst (GameUploadHandler (env_ok [evil_entry]) req_ok s0) =
     Some (Plain 400 (''Invalid file path in zip: ../../evil.txt'' @ [CHR 0x0A])) \<and>
   reaches_detector (env_ok [over_ratio_entry]) req_ok ''PK'' tmp_name [over_ratio_entry] game_id \<and>
   lolCheckForZipBomb [over_ratio_entry] = Some ''excessive compression ratio detected'' \<and>
   fst (GameUploadHandler (env_ok [over_ratio_entry]) req_ok s0) =
     Some (Json 400 [(''details'', JString ''excessive compression ratio detected''),
                     (''error'', JString ''Zip validation failed''),
                     (''validationError'', JBool True)]) \<and>
   is_validation_error
     (Json 400 [(''details'', JString ''excessive compression ratio detected''),
                (''error'', JString ''Zip validation failed''),
                (''validationError'', JBool True)]) \<and>
   ((\<exists>zr e. open_reader (env_ok [over_ratio_entry]) = Inr zr \<and>
            lolCheckForZipBomb zr = Some e \<and>
            jsonValidationError 400 ''Zip validation failed''
              ''excessive compression ratio detected'' =
            jsonValidationError 400 ''Zip validation failed'' e) \<or>
    is_size_rejection
      (jsonValidationError 400 ''Zip validation failed''
         ''excessive compression ratio detected''))"
proof -
  have r: "reaches_extraction (env_ok ([] @ evil_entry # [])) req_ok ''PK'' tmp_name
      ([] @ evil_entry # []) game_id"
    using reaches_ok [OF evil_facts(4)] by simp
  have v: "\<not> validateZipFilePath (getwd (env_ok ([] @ evil_entry # []))) (Name evil_entry)
      (destDir_of game_id)"
    using evil_facts(2) by (simp add: getwd_ok game_dir_eq)
  have p: "fst (extract_loop (getwd (env_ok ([] @ evil_entry # []))) (destDir_of game_id)
      (extraction_start tmp_name ''PK'' game_id s0) []) = None"
    by simp
  note t = validation_body_and_path_rejection [where env = "env_ok ([] @ evil_entry # [])"
      and r = req_ok and upload = "''PK''" and tmp = tmp_name and pre = "[]" and f = evil_entry
      and post = "[]" and gameId = game_id and s = s0
      and env' = "env_ok [over_ratio_entry]" and r' = req_ok and upload' = "''PK''"
      and tmp' = tmp_name and zr = "[over_ratio_entry]" and gameId' = game_id
      and e = "''excessive compression ratio detected''"]
  have h: "fst (GameUploadHandler (env_ok [over_ratio_entry]) req_ok s0) =
      Some (jsonValidationError 400 ''Zip validation failed''
              ''excessive compression ratio detected'')"
    using t reaches_detector_ok [of "[over_ratio_entry]"] detector_over_ratio by simp
  then have h': "GameUploadHandler (env_ok [over_ratio_entry]) req_ok s0 =
      (Some (jsonValidationError 400 ''Zip validation failed''
               ''excessive compression ratio detected''),
       snd (GameUploadHandler (env_ok [over_ratio_entry]) req_ok s0))"
    by (metis prod.collapse)
  have only: "(\<exists>zr e. open_reader (env_ok [over_ratio_entry]) = Inr zr \<and>
            lolCheckForZipBomb zr = Some e \<and>
            jsonValidationError 400 ''Zip validation failed''
              ''excessive compression ratio detected'' =
            jsonValidationError 400 ''Zip validation failed'' e) \<or>
    is_size_rejection
      (jsonValidationError 400 ''Zip validation failed''
         ''excessive compression ratio detected'')"
    using validation_body_and_path_rejection [where env'' = "env_ok [over_ratio_entry]"
        and r'' = req_ok and s = s0
        and resp = "jsonValidationError 400 ''Zip validation failed''
              ''excessive compression ratio detected''"
        and s' = "snd (GameUploadHandler (env_ok [over_ratio_entry]) req_ok s0)"] h'
    by simp
  show ?thesis
    using t r v p evil_facts(1) reaches_detector_ok [of "[over_ratio_entry]"] detector_over_ratio
      only
    by (simp add: evil_facts(3) http_Error_def jsonValidationError_def)
qed

text \<open>
  C4 as stated fails: for the archive with the one entry \<^verbatim>\<open>../../evil.txt\<close> the response
  is the plain-text one.
\<close>

theorem path_rejection_not_structured:
  "fst (GameUploadHandler (env_ok [evil_entry]) req_ok s0) =
     Some (Plain 400 (''Invalid file path in zip: ../../evil.txt'' @ [CHR 0x0A])) \<and>
   \<not> is_validation_error (Plain 400 (''Invalid file path in zip: ../../evil.txt'' @ [CHR 0x0A]))"
  using handler_evil by (simp add: http_Error_def)



text \<open>
  C6, as amended. The detector rejects the archive with the excessive-ratio error exactly
  when the first entry that it rejects is not exempt, passes the entry count and the
  aggregate size with the counters that the entries before it have left, has both
  declared sizes nonzero, and has an integer quotient of the declared uncompressed by the
  declared compressed size above 100, which is to say an uncompressed size of at least 101
  times the compressed one. An entry with a declared size of zero is never rejected for
  its ratio.
\<close>

theorem detector_ratio_rejection:
  "(lolCheckForZipBomb zr = Some ''excessive compression ratio detected'' \<longleftrightarrow>
      (\<exists>pre f post n t. zr = pre @ f # post \<and> bomb_pass 0 0 pre = Some (n, t) \<and>
         \<not> exempt f \<and> n + 1 \<le> maxZipEntries \<and>
         \<not> t + declared_uc f > of_nat maxTotalUncompressedBytes \<and>
         declared_cs f \<noteq> 0 \<and> declared_uc f \<noteq> 0 \<and>
         unat (declared_uc f) div unat (declared_cs f) > maxCompressionRatio)) \<and>
   (bomb_entry entries totalUncompressed f = Inl ''excessive compression ratio detected'' \<longleftrightarrow>
      \<not> exempt f \<and> entries + 1 \<le> maxZipEntries \<and>
      \<not> totalUncompressed + declared_uc f > of_nat maxTotalUncompressedBytes \<and>
      declared_cs f \<noteq> 0 \<and> declared_uc f \<noteq> 0 \<and>
      unat (declared_uc f) div unat (declared_cs f) > maxCompressionRatio) \<and>
   (declared_cs f \<noteq> 0 \<longrightarrow>
      (unat (declared_uc f) div unat (declared_cs f) > maxCompressionRatio \<longleftrightarrow>
       101 * unat (declared_cs f) \<le> unat (declared_uc f))) \<and>
   (declared_cs f = 0 \<or> declared_uc f = 0 \<longrightarrow>
      bomb_entry entries totalUncompressed f \<noteq> Inl ''excessive compression ratio detected'')"
proof -
  have entry: "bomb_entry n t g = Inl ''excessive compression ratio detected'' \<longleftrightarrow>
      \<not> exempt g \<and> n + 1 \<le> maxZipEntries \<and>
      \<not> t + declared_uc g > of_nat maxTotalUncompressedBytes \<and>
      declared_cs g \<noteq> 0 \<and> declared_uc g \<noteq> 0 \<and>
      unat (declared_uc g) div unat (declared_cs g) > maxCompressionRatio" for n t g
    unfolding bomb_entry_def Let_def word_quot_gt
    by (auto simp: word_greater_zero_iff)
  have archive: "lolCheckForZipBomb zr = Some ''excessive compression ratio detected'' \<longleftrightarrow>
      (\<exists>pre f post n t. zr = pre @ f # post \<and> bomb_pass 0 0 pre = Some (n, t) \<and>
         \<not> exempt f \<and> n + 1 \<le> maxZipEntries \<and>
         \<not> t + declared_uc f > of_nat maxTotalUncompressedBytes \<and>
         declared_cs f \<noteq> 0 \<and> declared_uc f \<noteq> 0 \<and>
         unat (declared_uc f) div unat (declared_cs f) > maxCompressionRatio)"
    unfolding lolCheckForZipBomb_def bomb_loop_Some_iff entry by simp
  have quot: "declared_cs f \<noteq> 0 \<longrightarrow>
      (unat (declared_uc f) div unat (declared_cs f) > maxCompressionRatio \<longleftrightarrow>
       101 * unat (declared_cs f) \<le> unat (declared_uc f))"
  proof
    assume "declared_cs f \<noteq> 0"
    then have pos: "0 < unat (declared_cs f)" by (simp add: unat_gt_0)
    have "101 \<le> unat (declared_uc f) div unat (declared_cs f) \<longleftrightarrow>
          101 * unat (declared_cs f) \<le> unat (declared_uc f)"
      using pos by (simp add: less_eq_div_iff_mult_less_eq)
    then show "unat (declared_uc f) div unat (declared_cs f) > maxCompressionRatio \<longleftrightarrow>
       101 * unat (declared_cs f) \<le> unat (declared_uc f)"
      by (simp add: maxCompressionRatio_def Suc_le_eq [symmetric])
  qed
  have zero: "declared_cs f = 0 \<or> declared_uc f = 0 \<longrightarrow>
      bomb_entry entries totalUncompressed f \<noteq> Inl ''excessive compression ratio detected''"
    using entry [of entries totalUncompressed f] by auto
  show ?thesis
    using archive entry [of entries totalUncompressed f] quot zero by blast
qed

theorem detector_ratio_rejection_witness:
  "bomb_pass 0 0 [ratio_entry] = Some (1, 201) \<and>
   \<not> exempt over_ratio_entry \<and>
   declared_cs over_ratio_entry \<noteq> 0 \<and> declared_uc over_ratio_entry \<noteq> 0 \<and>
   101 * unat (declared_cs over_ratio_entry) \<le> unat (declared_uc over_ratio_entry) \<and>
   lolCheckForZipBomb [ratio_entry, over_ratio_entry] =
     Some ''excessive compression ratio detected'' \<and>
   bomb_entry 0 0 ratio_entry \<noteq> Inl ''excessive compression ratio detected'' \<and>
   \<not> 101 * unat (declared_cs ratio_entry) \<le> unat (declared_uc ratio_entry) \<and>
   bomb_entry 0 0 (ratio_entry\<lparr>CompressedSize64 := 0, CompressedSize := 0\<rparr>) \<noteq>
     Inl ''excessive compression ratio detected''"
proof -
  have p: "bomb_pass 0 0 [ratio_entry] = Some (1, 201)"
    by (simp add: bomb_ratio_entry)
  have b: "declared_cs (ratio_entry\<lparr>CompressedSize64 := 0, CompressedSize := 0\<rparr>) = 0"
    by (simp add: declared_cs_def ratio_entry_def)
  have d: "[ratio_entry, over_ratio_entry] = [ratio_entry] @ over_ratio_entry # []" by simp
  have "\<exists>pre f post n t. [ratio_entry, over_ratio_entry] = pre @ f # post \<and>
         bomb_pass 0 0 pre = Some (n, t) \<and>
         \<not> exempt f \<and> n + 1 \<le> maxZipEntries \<and>
         \<not> t + declared_uc f > of_nat maxTotalUncompressedBytes \<and>
         declared_cs f \<noteq> 0 \<and> declared_uc f \<noteq> 0 \<and>
         unat (declared_uc f) div unat (declared_cs f) > maxCompressionRatio"
    apply (rule exI [of _ "[ratio_entry]"], rule exI [of _ over_ratio_entry], rule exI [of _ "[]"],
        rule exI [of _ 1], rule exI [of _ 201])
    using p by (simp add: over_ratio_facts maxZipEntries_def maxTotalUncompressedBytes_def
        maxCompressionRatio_def)
  then have "lolCheckForZipBomb [ratio_entry, over_ratio_entry] =
     Some ''excessive compression ratio detected''"
    using detector_ratio_rejection [where zr = "[ratio_entry, over_ratio_entry]"] by blast
  moreover have "bomb_entry 0 0 (ratio_entry\<lparr>CompressedSize64 := 0, CompressedSize := 0\<rparr>) \<noteq>
     Inl ''excessive compression ratio detected''"
    using detector_ratio_rejection [where entries = 0 and totalUncompressed = 0
        and f = "ratio_entry\<lparr>CompressedSize64 := 0, CompressedSize := 0\<rparr>"] b
    by simp
  moreover have "bomb_entry 0 0 ratio_entry \<noteq> Inl ''excessive compression ratio detected''"
    using detector_ratio_rejection [where entries = 0 and totalUncompressed = 0
        and f = ratio_entry] ratio_entry_facts
    by (simp add: maxCompressionRatio_def)
  ultimately show ?thesis using p by (simp add: ratio_entry_facts over_ratio_facts)
qed

text \<open>
  C6 as stated fails: an entry declaring 201 bytes compressed to 2 has a ratio above
  100:1, both sizes nonzero, and the detector accepts the archive.
\<close>

theorem ratio_above_100_accepted:
  "declared_cs ratio_entry \<noteq> 0 \<and> declared_uc ratio_entry \<noteq> 0 \<and>
   100 * unat (declared_cs ratio_entry) < unat (declared_uc ratio_entry) \<and>
   lolCheckForZipBomb [ratio_entry] = None"
  by (simp add: lolCheckForZipBomb_def bomb_ratio_entry ratio_entry_facts)

text \<open>
  C7. The sanitizer replaces a double quote by two backslashes and the quote: for the
  token that is a single double quote the result is backslash, backslash, quote, in which
  the first backslash escapes the second and the quote is left unescaped.
\<close>

theorem sanitize_leaves_quote_unescaped:
  "sanitizeForAirtableFormula [34] = [92, 92, 34] \<and>
   unescaped_quote False (sanitizeForAirtableFormula [34])"
  by (simp add: sanitizeForAirtableFormula_def ReplaceAll_def IsSpace_def)

text \<open>
  C8. When the identifier generator fails after the temporary upload file has been
  created and filled, \<^verbatim>\<open>log.Fatal\<close> ends the process: the handler does not return, the
  deferred removal does not run, and the temporary file is still there.
\<close>

theorem exit_leaves_temp_file:
  "fst (GameUploadHandler (env_uuid_fails three_entries) req_ok s0) = None \<and>
   files (snd (GameUploadHandler (env_uuid_fails three_entries) req_ok s0)) tmp_name =
     Some ''PK''"
  by (simp add: handler_uuid_fails)

text \<open>
  C9, as amended. For an absolute destination root the verdict of the Path Sanitizer
  does not depend on the working directory of the process: two calls with the same name
  and root agree, whenever they are made. The destination root of a submission is
  absolute.
\<close>

theorem validateZipFilePath_absolute_root:
  "(IsAbs destDir \<longrightarrow>
      validateZipFilePath cwd filePath destDir = validateZipFilePath cwd' filePath destDir) \<and>
   IsAbs (destDir_of gameId) \<and>
   validateZipFilePath cwd filePath (destDir_of gameId) =
     validateZipFilePath cwd' filePath (destDir_of gameId)"
  using validate_abs_root [where destDir = destDir and cwd = cwd and filePath = filePath
      and cwd' = cwd']
    validate_abs_root [OF destDir_of_abs, where cwd = cwd and filePath = filePath
      and cwd' = cwd' and gameId1 = gameId]
    destDir_of_abs [of gameId]
  by simp

theorem validateZipFilePath_absolute_root_witness:
  "IsAbs ''/games/x'' \<and>
   validateZipFilePath None ''a.txt'' ''/games/x'' \<and>
   validateZipFilePath (Some ''/srv'') ''a.txt'' ''/games/x'' \<and>
   \<not> validateZipFilePath None ''../a.txt'' ''/games/x'' \<and>
   \<not> validateZipFilePath (Some ''/srv'') ''../a.txt'' ''/games/x''"
proof -
  have a: "IsAbs ''/games/x''" by code_simp
  have b: "validateZipFilePath None ''a.txt'' ''/games/x''" by code_simp
  have c: "\<not> validateZipFilePath None ''../a.txt'' ''/games/x''" by code_simp
  show ?thesis
    using validateZipFilePath_absolute_root [of "''/games/x''" None "''a.txt''" "Some ''/srv''" "''x''"]
      validateZipFilePath_absolute_root [of "''/games/x''" None "''../a.txt''" "Some ''/srv''" "''x''"]
      a b c
    by simp
qed

text \<open>
  C9 as stated fails: for the relative root \<^verbatim>\<open>..\<close> and the name \<^verbatim>\<open>x\<close> the verdict is
  true when the working directory is \<^verbatim>\<open>/a/b\<close> and false when it is \<^verbatim>\<open>/\<close>.
\<close>

theorem relative_root_depends_on_cwd:
  "validateZipFilePath (Some ''/a/b'') ''x'' ''..'' \<and>
   \<not> validateZipFilePath (Some ''/'') ''x'' ''..''"
  by code_simp



end
